theory Spec2Isabelle
  imports Complex_Main "HOL-Library.Sublist"
begin

section \<open>JavaScript primitives used by agent.js\<close>

text \<open>
  Strings are lists of code units below 256 (\<^typ>\<open>string\<close>); in that range the characters
  that \<^verbatim>\<open>String.prototype.trim\<close> and \<^verbatim>\<open>parseInt\<close> skip are TAB, LF, VT, FF, CR, SP
  and NBSP.
\<close>

definition is_whitespace :: "char \<Rightarrow> bool" where
  "is_whitespace c \<longleftrightarrow> (of_char c :: nat) \<in> {9, 10, 11, 12, 13, 32, 160}"

definition trim :: "string \<Rightarrow> string" where
  "trim s = rev (dropWhile is_whitespace (rev (dropWhile is_whitespace s)))"

text \<open>
  A JavaScript number as far as the configuration needs it: \<^verbatim>\<open>NaN\<close>, or the integer that
  \<^verbatim>\<open>parseInt\<close> read (\<open>Num n\<close> stands for the double nearest to \<open>n\<close>).
\<close>

datatype jsnum = NaN | Num int

definition digit_value :: "char \<Rightarrow> nat option" where
  "digit_value c =
     (let n = (of_char c :: nat) in
      if 48 \<le> n \<and> n \<le> 57 then Some (n - 48)
      else if 97 \<le> n \<and> n \<le> 122 then Some (n - 87)
      else if 65 \<le> n \<and> n \<le> 90 then Some (n - 55)
      else None)"

definition is_digit :: "nat \<Rightarrow> char \<Rightarrow> bool" where
  "is_digit R c = (case digit_value c of None \<Rightarrow> False | Some d \<Rightarrow> d < R)"

definition digits_value :: "nat \<Rightarrow> string \<Rightarrow> int" where
  "digits_value R Z =
     foldl (\<lambda>a c. a * int R + (case digit_value c of None \<Rightarrow> 0 | Some d \<Rightarrow> int d)) 0 Z"

text \<open>
  \<^verbatim>\<open>parseInt(string)\<close> with no radix argument: skip leading white space, read a sign, read
  a \<^verbatim>\<open>0x\<close> prefix (radix 16, else radix 10), take the longest run of digits; no digit at all
  gives \<^verbatim>\<open>NaN\<close>.
\<close>

definition parseInt :: "string \<Rightarrow> jsnum" where
  "parseInt str =
     (let s = dropWhile is_whitespace str;
          sign = (if take 1 s = ''-'' then - 1 else 1 :: int);
          s1 = (if take 1 s = ''-'' \<or> take 1 s = ''+'' then drop 1 s else s);
          hex = (take 2 s1 = ''0x'' \<or> take 2 s1 = ''0X'');
          R = (if hex then 16 else 10 :: nat);
          s2 = (if hex then drop 2 s1 else s1);
          Z = takeWhile (is_digit R) s2
      in if Z = [] then NaN else Num (sign * digits_value R Z))"

text \<open>\<^verbatim>\<open>Math.max(a, b)\<close>: \<^verbatim>\<open>NaN\<close> if either argument is \<^verbatim>\<open>NaN\<close>.\<close>

fun Math_max :: "jsnum \<Rightarrow> jsnum \<Rightarrow> jsnum" where
  "Math_max (Num a) (Num b) = Num (max a b)"
| "Math_max _ _ = NaN"

text \<open>\<^verbatim>\<open>a >= b\<close> on numbers: every comparison with \<^verbatim>\<open>NaN\<close> is false.\<close>

fun js_ge :: "jsnum \<Rightarrow> jsnum \<Rightarrow> bool" where
  "js_ge (Num a) (Num b) = (a \<ge> b)"
| "js_ge _ _ = False"


section \<open>Loading and validating the environment (agent.js, lines 19--51)\<close>

type_synonym env = "string \<rightharpoonup> string"

datatype startup_error =
    MissingEnv string
  | BadApiKey
  | BadServerUrl
  | TypeError
  | AlreadyRunning

definition requiredEnv :: "string list" where
  "requiredEnv = [''SERVER_URL'', ''API_KEY'', ''NODE_NAME'']"

text \<open>The test \<^verbatim>\<open>!process.env[key] || process.env[key].trim() === ''\<close>.\<close>

definition missing :: "env \<Rightarrow> string \<Rightarrow> bool" where
  "missing e key = (case e key of None \<Rightarrow> True | Some v \<Rightarrow> v = [] \<or> trim v = [])"

text \<open>The test \<^verbatim>\<open>/^[a-f0-9]{64}$/i\<close> on a string.\<close>

definition is_hex_char :: "char \<Rightarrow> bool" where
  "is_hex_char c =
     (let n = (of_char c :: nat) in
      (48 \<le> n \<and> n \<le> 57) \<or> (97 \<le> n \<and> n \<le> 102) \<or> (65 \<le> n \<and> n \<le> 70))"

definition matches_hex64 :: "string \<Rightarrow> bool" where
  "matches_hex64 k \<longleftrightarrow> length k = 64 \<and> list_all is_hex_char k"

text \<open>
  The next two are the conditions of the second and third \<^verbatim>\<open>if\<close> of the validation,
  as written: when one holds the process exits.
\<close>

definition api_key_rejected :: "string \<Rightarrow> bool" where
  "api_key_rejected k \<longleftrightarrow> length k \<noteq> 64 \<or> \<not> matches_hex64 k"

definition server_url_rejected :: "string \<Rightarrow> bool" where
  "server_url_rejected u \<longleftrightarrow> \<not> prefix ''http://'' u \<and> \<not> prefix ''https://'' u"

text \<open>
  The three checks in the order of the source; each failing check ends in
  \<^verbatim>\<open>process.exit(1)\<close>. The result \<open>Inl err\<close> is that exit, \<open>Inr ()\<close> is falling through to
  the construction of \<^verbatim>\<open>CONFIG\<close>.
\<close>

definition validate_env :: "env \<Rightarrow> startup_error + unit" where
  "validate_env e =
     (case find (missing e) requiredEnv of
        Some key \<Rightarrow> Inl (MissingEnv key)
      | None \<Rightarrow>
          (case e ''API_KEY'' of
             None \<Rightarrow> Inl TypeError
           | Some k \<Rightarrow>
               if api_key_rejected k then Inl BadApiKey
               else (case e ''SERVER_URL'' of
                       None \<Rightarrow> Inl TypeError
                     | Some u \<Rightarrow> if server_url_rejected u then Inl BadServerUrl else Inr ())))"

record config =
  SERVER_URL :: string
  API_KEY :: string
  NODE_NAME :: string
  REPORT_INTERVAL :: jsnum
  LATENCY_TEST :: bool
  DEBUG :: bool
  MAX_RECONNECT_ATTEMPTS :: int
  RECONNECT_BASE_DELAY :: rat

text \<open>\<^verbatim>\<open>a || b\<close> on an environment variable: the value if it is set and not empty.\<close>

definition or_else :: "string option \<Rightarrow> string \<Rightarrow> string" where
  "or_else v d = (case v of None \<Rightarrow> d | Some s \<Rightarrow> if s = [] then d else s)"

definition strip_trailing_slashes :: "string \<Rightarrow> string" where
  "strip_trailing_slashes s = rev (dropWhile (\<lambda>c. c = CHR ''/'') (rev s))"

text \<open>
  The object \<^verbatim>\<open>CONFIG\<close>, from the environment and \<^verbatim>\<open>os.hostname()\<close>. It is built only
  after \<open>validate_env\<close> fell through, where \<^verbatim>\<open>SERVER_URL\<close> and \<^verbatim>\<open>API_KEY\<close> are set.
\<close>

definition CONFIG :: "env \<Rightarrow> string \<Rightarrow> config" where
  "CONFIG e hostname =
     \<lparr> SERVER_URL = strip_trailing_slashes (or_else (e ''SERVER_URL'') []),
       API_KEY = trim (or_else (e ''API_KEY'') []),
       NODE_NAME = trim (or_else (e ''NODE_NAME'') hostname),
       REPORT_INTERVAL = Math_max (Num 500) (parseInt (or_else (e ''REPORT_INTERVAL'') ''1000'')),
       LATENCY_TEST = (e ''LATENCY_TEST'' \<noteq> Some ''false''),
       DEBUG = (e ''DEBUG'' = Some ''true''),
       MAX_RECONNECT_ATTEMPTS = 20,
       RECONNECT_BASE_DELAY = 3000 \<rparr>"

text \<open>
  Startup up to the first network call: validation, \<^verbatim>\<open>CONFIG\<close>, then the lock file
  (\<open>other_instance\<close>: the lock file names a live process). \<open>Inl\<close> is \<^verbatim>\<open>process.exit(1)\<close>.
\<close>

definition startup :: "env \<Rightarrow> string \<Rightarrow> bool \<Rightarrow> startup_error + config" where
  "startup e hostname other_instance =
     (case validate_env e of
        Inl err \<Rightarrow> Inl err
      | Inr _ \<Rightarrow> if other_instance then Inl AlreadyRunning else Inr (CONFIG e hostname))"


section \<open>The collector as seen through axios\<close>

text \<open>
  What comes back for one HTTP request: a response with a status code and a body, or no
  response at all (time-out, refused connection, DNS failure). Of the body only the fields
  the agent reads are kept; \<open>success\<close> is the truthiness of \<^verbatim>\<open>response.data.success\<close>.
\<close>

datatype resp_data = Data (success: bool) (node_id: "string option") (error: "string option")

datatype http_outcome = Response nat resp_data | NoResponse

text \<open>
  axios with its default \<^verbatim>\<open>validateStatus\<close> (no call of the agent overrides it): the promise
  is fulfilled for a status from 200 to 299 and rejected for any other status and for a missing
  response. \<open>Some d\<close> is a fulfilled promise whose \<^verbatim>\<open>response.data\<close> is \<open>d\<close>, \<open>None\<close> is
  the rejection that the \<^verbatim>\<open>catch\<close> blocks receive.
\<close>

definition validateStatus :: "nat \<Rightarrow> bool" where
  "validateStatus status \<longleftrightarrow> status \<ge> 200 \<and> status < 300"

fun axios_result :: "http_outcome \<Rightarrow> resp_data option" where
  "axios_result (Response status d) = (if validateStatus status then Some d else None)"
| "axios_result NoResponse = None"

text \<open>
  The value of \<^verbatim>\<open>getSystemStats()\<close>: the agent sends it on and never looks inside (apart
  from the debug line), so only some of its fields are kept.
\<close>

record snapshot =
  cpu :: int
  cpu_cores :: int
  uptime :: int
  processes :: int
  os_version :: string

datatype body =
    RegisterBody string string string string
  | ReportBody string int snapshot

text \<open>A request: the URL, the body of a POST, the \<^verbatim>\<open>timeout\<close> option in milliseconds.\<close>

datatype request = Get string nat | Post string body nat

text \<open>
  An awaited value comes with the milliseconds that pass between the call and the moment the
  caller runs again.
\<close>

type_synonym 'a awaited = "'a \<times> nat"


section \<open>The state of the agent (agent.js, lines 74--75, and the process around it)\<close>

text \<open>
  \<open>isRegistered\<close> and \<open>reconnectAttempts\<close> are the two variables of the script. The rest is
  the process and its world: the argument of \<^verbatim>\<open>process.exit\<close> once it was called, the clock
  behind \<^verbatim>\<open>Date.now()\<close>, \<^verbatim>\<open>os.hostname()\<close>, the requests handed to axios so far, the
  delays handed to \<^verbatim>\<open>setTimeout(sendReport, delay)\<close> so far and how many of those timers
  have fired, and the argument of \<^verbatim>\<open>setInterval\<close> once it was called.
\<close>

record agent =
  isRegistered :: bool
  reconnectAttempts :: int
  exit_code :: "int option"
  now :: int
  os_hostname :: string
  requests :: "request list"
  timeouts :: "rat list"
  fired :: nat
  interval :: "jsnum option"

definition initial :: "string \<Rightarrow> int \<Rightarrow> agent" where
  "initial hostname t0 =
     \<lparr> isRegistered = False, reconnectAttempts = 0, exit_code = None, now = t0,
       os_hostname = hostname, requests = [], timeouts = [], fired = 0, interval = None \<rparr>"

definition issue :: "request \<Rightarrow> agent \<Rightarrow> agent" where
  "issue rq st = st\<lparr>requests := requests st @ [rq]\<rparr>"

definition elapse :: "nat \<Rightarrow> agent \<Rightarrow> agent" where
  "elapse ms st = st\<lparr>now := now st + int ms\<rparr>"

definition alive :: "agent \<Rightarrow> bool" where
  "alive st \<longleftrightarrow> exit_code st = None"

definition ping_request :: "config \<Rightarrow> request" where
  "ping_request cfg = Get (SERVER_URL cfg) 5000"

definition register_request :: "config \<Rightarrow> agent \<Rightarrow> request" where
  "register_request cfg st =
     Post (SERVER_URL cfg @ ''/api/node/register'')
          (RegisterBody (API_KEY cfg) (NODE_NAME cfg) (os_hostname st) ''6.1'') 10000"

definition report_request :: "config \<Rightarrow> int \<Rightarrow> snapshot \<Rightarrow> request" where
  "report_request cfg latency stats =
     Post (SERVER_URL cfg @ ''/api/node/report'') (ReportBody (API_KEY cfg) latency stats) 15000"


section \<open>One report cycle, run on its own (agent.js, lines 80--242)\<close>

text \<open>
  \<^verbatim>\<open>scheduleReconnect\<close>: \<^verbatim>\<open>process.exit(1)\<close> when the budget is used up, else the delay
  \<^verbatim>\<open>RECONNECT_BASE_DELAY * Math.pow(1.5, reconnectAttempts)\<close>, the increment and the timer.
  The delay is a rational: for the exponents below 20 the double product is exact.
\<close>

definition scheduleReconnect :: "config \<Rightarrow> agent \<Rightarrow> agent" where
  "scheduleReconnect cfg st =
     (if reconnectAttempts st \<ge> MAX_RECONNECT_ATTEMPTS cfg then st\<lparr>exit_code := Some 1\<rparr>
      else let delay = RECONNECT_BASE_DELAY cfg * (1.5 powi reconnectAttempts st)
           in st\<lparr>reconnectAttempts := reconnectAttempts st + 1,
                 timeouts := timeouts st @ [delay]\<rparr>)"

definition measureLatency :: "config \<Rightarrow> http_outcome awaited \<Rightarrow> agent \<Rightarrow> int \<times> agent" where
  "measureLatency cfg r st =
     (if \<not> LATENCY_TEST cfg then (0, st)
      else let start = now st;
               st1 = elapse (snd r) (issue (ping_request cfg) st)
           in case axios_result (fst r) of
                Some res \<Rightarrow> (now st1 - start, st1)
              | None \<Rightarrow> (9999, st1))"

definition registerNode :: "config \<Rightarrow> http_outcome awaited \<Rightarrow> agent \<Rightarrow> bool \<times> agent" where
  "registerNode cfg r st =
     (let st1 = elapse (snd r) (issue (register_request cfg st) st)
      in case axios_result (fst r) of
           Some d \<Rightarrow>
             if success d then (True, st1\<lparr>isRegistered := True, reconnectAttempts := 0\<rparr>)
             else (False, st1)
         | None \<Rightarrow> (False, st1))"

text \<open>
  What the outside world answers during one cycle: the reply to the registration POST, the
  value of \<^verbatim>\<open>getSystemStats()\<close> (\<open>None\<close> is \<^verbatim>\<open>null\<close>), the reply to the latency GET and the
  reply to the report POST. A reply is read only if the cycle gets that far.
\<close>

record cycle_env =
  register_reply :: "http_outcome awaited"
  stats_reply :: "snapshot option awaited"
  ping_reply :: "http_outcome awaited"
  report_reply :: "http_outcome awaited"

text \<open>\<^verbatim>\<open>sendReport\<close> from line 208 on: collect, measure, post, handle the outcome.\<close>

definition collect_and_send :: "config \<Rightarrow> cycle_env \<Rightarrow> agent \<Rightarrow> agent" where
  "collect_and_send cfg env st =
     (let st1 = elapse (snd (stats_reply env)) st
      in case fst (stats_reply env) of
           None \<Rightarrow> st1
         | Some stats \<Rightarrow>
             (let (latency, st2) = measureLatency cfg (ping_reply env) st1;
                  st3 = elapse (snd (report_reply env))
                          (issue (report_request cfg latency stats) st2)
              in (case axios_result (fst (report_reply env)) of
                    Some res \<Rightarrow> st3\<lparr>reconnectAttempts := 0\<rparr>
                  | None \<Rightarrow> scheduleReconnect cfg (st3\<lparr>isRegistered := False\<rparr>))))"

definition sendReport :: "config \<Rightarrow> cycle_env \<Rightarrow> agent \<Rightarrow> agent" where
  "sendReport cfg env st =
     (if \<not> isRegistered st then
        let (success, st1) = registerNode cfg (register_reply env) st
        in if \<not> success then scheduleReconnect cfg st1
           else collect_and_send cfg env st1
      else collect_and_send cfg env st)"

text \<open>
  A timer that calls \<^verbatim>\<open>sendReport\<close>: after \<^verbatim>\<open>process.exit\<close> there is no process left to run
  it. \<open>cycles\<close> runs one cycle after the other, each to its end before the next starts.
\<close>

definition fire :: "config \<Rightarrow> cycle_env \<Rightarrow> agent \<Rightarrow> agent" where
  "fire cfg env st = (if alive st then sendReport cfg env st else st)"

fun cycles :: "config \<Rightarrow> cycle_env list \<Rightarrow> agent \<Rightarrow> agent" where
  "cycles cfg [] st = st"
| "cycles cfg (env # envs) st = cycles cfg envs (fire cfg env st)"


section \<open>Overlapping cycles: the event loop\<close>

text \<open>
  \<^verbatim>\<open>sendReport\<close> is an \<^verbatim>\<open>async\<close> function: it runs until an \<^verbatim>\<open>await\<close> on the network or
  on the metrics library, gives the thread back, and runs again when the awaited promise
  settles. Meanwhile the interval timer and the retry timers may call \<^verbatim>\<open>sendReport\<close> again;
  nothing in the script holds a new call back. A task is one call of \<^verbatim>\<open>sendReport\<close>, named
  by what it waits for: the registration POST, \<^verbatim>\<open>getSystemStats()\<close>, the latency GET (with
  the snapshot and the value of \<^verbatim>\<open>start\<close>), the report POST; or it has returned.
\<close>

datatype task = AwaitRegister | AwaitStats | AwaitLatency snapshot int | AwaitReport | Finished

text \<open>A call of \<^verbatim>\<open>sendReport\<close> up to its first \<^verbatim>\<open>await\<close>.\<close>

definition begin_cycle :: "config \<Rightarrow> agent \<Rightarrow> task \<times> agent" where
  "begin_cycle cfg st =
     (if \<not> isRegistered st then (AwaitRegister, issue (register_request cfg st) st)
      else (AwaitStats, st))"

datatype reply = Http http_outcome | Stats "snapshot option"

text \<open>
  A task runs on from its \<^verbatim>\<open>await\<close> with the settled value, up to its next \<^verbatim>\<open>await\<close> or
  its return. \<open>None\<close>: this task does not wait for such a value. With the latency test
  switched off \<^verbatim>\<open>measureLatency\<close> returns at once and the report is posted in the same run.
\<close>

fun resume :: "config \<Rightarrow> task \<Rightarrow> reply \<Rightarrow> agent \<Rightarrow> (task \<times> agent) option" where
  "resume cfg AwaitRegister (Http r) st =
     Some (case axios_result r of
             Some d \<Rightarrow>
               if success d then (AwaitStats, st\<lparr>isRegistered := True, reconnectAttempts := 0\<rparr>)
               else (Finished, scheduleReconnect cfg st)
           | None \<Rightarrow> (Finished, scheduleReconnect cfg st))"
| "resume cfg AwaitStats (Stats None) st = Some (Finished, st)"
| "resume cfg AwaitStats (Stats (Some stats)) st =
     Some (if \<not> LATENCY_TEST cfg then (AwaitReport, issue (report_request cfg 0 stats) st)
           else (AwaitLatency stats (now st), issue (ping_request cfg) st))"
| "resume cfg (AwaitLatency stats start) (Http r) st =
     Some (let latency = (case axios_result r of Some res \<Rightarrow> now st - start | None \<Rightarrow> 9999)
           in (AwaitReport, issue (report_request cfg latency stats) st))"
| "resume cfg AwaitReport (Http r) st =
     Some (case axios_result r of
             Some res \<Rightarrow> (Finished, st\<lparr>reconnectAttempts := 0\<rparr>)
           | None \<Rightarrow> (Finished, scheduleReconnect cfg (st\<lparr>isRegistered := False\<rparr>)))"
| "resume cfg _ _ st = None"

text \<open>
  What the event loop can run next: the interval timer, a retry timer, or the continuation
  of the task with a given number. An event comes with the milliseconds since the one before.
\<close>

datatype trigger = IntervalTick | RetryTimer | Settle nat reply

type_synonym event = "nat \<times> trigger"

type_synonym system = "agent \<times> task list"

definition spawn :: "config \<Rightarrow> system \<Rightarrow> system" where
  "spawn cfg sys = (let (t, st) = begin_cycle cfg (fst sys) in (st, snd sys @ [t]))"

text \<open>
  The last lines of the script: task 0 is the first call of \<^verbatim>\<open>sendReport\<close>, and when it
  has returned \<^verbatim>\<open>setInterval(sendReport, CONFIG.REPORT_INTERVAL)\<close> is called.
\<close>

definition after_first :: "config \<Rightarrow> nat \<Rightarrow> task \<Rightarrow> agent \<Rightarrow> agent" where
  "after_first cfg i t st =
     (if i = 0 \<and> t = Finished \<and> alive st then st\<lparr>interval := Some (REPORT_INTERVAL cfg)\<rparr>
      else st)"

text \<open>
  One turn of the event loop; \<open>None\<close> when the event cannot happen: the process has exited,
  the interval timer is not set, no retry timer is pending, or the task does not wait for
  that value.
\<close>

definition step :: "config \<Rightarrow> system \<Rightarrow> event \<Rightarrow> system option" where
  "step cfg sys ev =
     (let st = elapse (fst ev) (fst sys); ts = snd sys
      in if \<not> alive st then None
         else (case snd ev of
                 IntervalTick \<Rightarrow>
                   if interval st = None then None else Some (spawn cfg (st, ts))
               | RetryTimer \<Rightarrow>
                   if fired st < length (timeouts st)
                   then Some (spawn cfg (st\<lparr>fired := fired st + 1\<rparr>, ts))
                   else None
               | Settle i r \<Rightarrow>
                   if i < length ts
                   then (case resume cfg (ts ! i) r st of
                           None \<Rightarrow> None
                         | Some (t, st1) \<Rightarrow> Some (after_first cfg i t st1, ts[i := t]))
                   else None))"

fun run :: "config \<Rightarrow> event list \<Rightarrow> system \<Rightarrow> system option" where
  "run cfg [] sys = Some sys"
| "run cfg (ev # evs) sys = (case step cfg sys ev of None \<Rightarrow> None | Some sys1 \<Rightarrow> run cfg evs sys1)"

text \<open>The process right after startup: the first call of \<^verbatim>\<open>sendReport\<close> is under way.\<close>

definition boot :: "config \<Rightarrow> string \<Rightarrow> int \<Rightarrow> system" where
  "boot cfg hostname t0 = spawn cfg (initial hostname t0, [])"

definition in_flight :: "task list \<Rightarrow> nat" where
  "in_flight ts = length (filter (\<lambda>t. t \<noteq> Finished) ts)"

text \<open>
  One task run alone: \<open>settle\<close> gives a waiting task the answer that the cycle's world has
  for it. Four answers bring every task to its return.
\<close>

definition settle :: "config \<Rightarrow> cycle_env \<Rightarrow> task \<times> agent \<Rightarrow> task \<times> agent" where
  "settle cfg env p =
     (let a = (case fst p of
                 AwaitRegister \<Rightarrow> (Http (fst (register_reply env)), snd (register_reply env))
               | AwaitStats \<Rightarrow> (Stats (fst (stats_reply env)), snd (stats_reply env))
               | AwaitLatency stats start \<Rightarrow> (Http (fst (ping_reply env)), snd (ping_reply env))
               | AwaitReport \<Rightarrow> (Http (fst (report_reply env)), snd (report_reply env))
               | Finished \<Rightarrow> (Stats None, 0))
      in case resume cfg (fst p) (fst a) (elapse (snd a) (snd p)) of
           None \<Rightarrow> p
         | Some q \<Rightarrow> q)"

definition alone :: "config \<Rightarrow> cycle_env \<Rightarrow> agent \<Rightarrow> task \<times> agent" where
  "alone cfg env st = settle cfg env (settle cfg env (settle cfg env (settle cfg env (begin_cycle cfg st))))"


section \<open>Failures in a row\<close>

text \<open>
  A cycle that ends in a recoverable failure and has no success in it: the registration fails,
  or the agent was registered and the report POST fails.
\<close>

definition failed :: "config \<Rightarrow> cycle_env \<Rightarrow> agent \<Rightarrow> bool" where
  "failed cfg env st =
     (if isRegistered st
      then fst (stats_reply env) \<noteq> None \<and> axios_result (fst (report_reply env)) = None
      else \<not> fst (registerNode cfg (register_reply env) st))"

fun all_failed :: "config \<Rightarrow> cycle_env list \<Rightarrow> agent \<Rightarrow> bool" where
  "all_failed cfg [] st = True"
| "all_failed cfg (env # envs) st = (failed cfg env st \<and> all_failed cfg envs (fire cfg env st))"


text \<open>
  The answer that makes a waiting task give up: a registration POST that is rejected or
  answered without \<^verbatim>\<open>success\<close>, a report POST that is rejected. \<open>after_failure\<close> is the
  assignment \<^verbatim>\<open>isRegistered = false\<close> that the report branch makes before it calls
  \<^verbatim>\<open>scheduleReconnect\<close>.
\<close>

definition request_failed :: "task \<Rightarrow> http_outcome \<Rightarrow> bool" where
  "request_failed t r =
     (case t of
        AwaitRegister \<Rightarrow> (case axios_result r of None \<Rightarrow> True | Some d \<Rightarrow> \<not> success d)
      | AwaitReport \<Rightarrow> axios_result r = None
      | _ \<Rightarrow> False)"

definition after_failure :: "task \<Rightarrow> agent \<Rightarrow> agent" where
  "after_failure t st = (if t = AwaitReport then st\<lparr>isRegistered := False\<rparr> else st)"


section \<open>Example inputs\<close>

definition example_key :: string where
  "example_key = ''0123456789abcdef0123456789ABCDEF0123456789abcdef0123456789ABCDEF''"

definition example_env :: env where
  "example_env =
     [''SERVER_URL'' \<mapsto> ''https://collector.example.org/'', ''API_KEY'' \<mapsto> example_key,
      ''NODE_NAME'' \<mapsto> ''node-1'']"

definition example_config :: config where
  "example_config = CONFIG example_env ''host-1''"

definition example_stats :: snapshot where
  "example_stats = \<lparr> cpu = 12, cpu_cores = 4, uptime = 86400, processes = 180,
                     os_version = ''Debian 12 (x64)'' \<rparr>"

definition accepted :: http_outcome where
  "accepted = Response 200 (Data True (Some ''42'') None)"

definition refused :: http_outcome where
  "refused = Response 200 (Data False None (Some ''Invalid API key''))"

definition server_error :: http_outcome where
  "server_error = Response 500 (Data False None (Some ''Internal error''))"

definition all_well :: cycle_env where
  "all_well = \<lparr> register_reply = (accepted, 120), stats_reply = (Some example_stats, 250),
                ping_reply = (accepted, 37), report_reply = (accepted, 90) \<rparr>"

definition no_snapshot :: cycle_env where
  "no_snapshot = all_well\<lparr>stats_reply := (None, 250)\<rparr>"

definition report_lost :: cycle_env where
  "report_lost = all_well\<lparr>report_reply := (NoResponse, 15000)\<rparr>"

definition report_refused :: cycle_env where
  "report_refused = all_well\<lparr>report_reply := (refused, 90)\<rparr>"

definition collector_down :: cycle_env where
  "collector_down = \<lparr> register_reply = (NoResponse, 10000), stats_reply = (Some example_stats, 250),
                      ping_reply = (NoResponse, 5000), report_reply = (NoResponse, 15000) \<rparr>"


text \<open>
  The collector does not answer. The first call of \<^verbatim>\<open>sendReport\<close> gives up after 10 s;
  the interval timer starts a second call one second later, and two seconds after that the
  retry timer starts a third.
\<close>

definition overlap_trace :: "event list" where
  "overlap_trace = [(10000, Settle 0 (Http NoResponse)), (1000, IntervalTick), (2000, RetryTimer)]"

text \<open>
  The collector answers, then fails once. The first call registers and reports. The interval
  timer starts a second call; while its report POST is under way the timer starts a third call,
  which finds the agent registered and goes on to collect; then the second call's report POST
  comes back with status 500.
\<close>

definition in_flight_trace :: "event list" where
  "in_flight_trace =
     [(120, Settle 0 (Http accepted)), (250, Settle 0 (Stats (Some example_stats))),
      (37, Settle 0 (Http accepted)), (90, Settle 0 (Http accepted)),
      (1000, IntervalTick), (250, Settle 1 (Stats (Some example_stats))),
      (37, Settle 1 (Http accepted)),
      (713, IntervalTick),
      (100, Settle 1 (Http server_error))]"

text \<open>The agent when that first call has returned and \<^verbatim>\<open>setInterval\<close> has been called.\<close>

definition first_failed :: agent where
  "first_failed =
     after_first example_config 0 Finished
       (scheduleReconnect example_config
          (elapse 10000 (issue (register_request example_config (initial ''host-1'' 0))
                               (initial ''host-1'' 0))))"


section \<open>Startup\<close>

subsection \<open>Required variables\<close>

lemma find_missing_None:
  "find (missing e) requiredEnv = None \<longleftrightarrow>
     \<not> missing e ''SERVER_URL'' \<and> \<not> missing e ''API_KEY'' \<and> \<not> missing e ''NODE_NAME''"
  by (simp add: requiredEnv_def)

lemma validate_env_Inr:
  "validate_env e = Inr () \<longleftrightarrow>
     \<not> missing e ''SERVER_URL'' \<and> \<not> missing e ''API_KEY'' \<and> \<not> missing e ''NODE_NAME'' \<and>
     (\<exists>k u. e ''API_KEY'' = Some k \<and> \<not> api_key_rejected k \<and>
            e ''SERVER_URL'' = Some u \<and> \<not> server_url_rejected u)"
proof (cases "find (missing e) requiredEnv")
  case None
  then have "\<not> missing e ''SERVER_URL'' \<and> \<not> missing e ''API_KEY'' \<and> \<not> missing e ''NODE_NAME''"
    by (simp add: find_missing_None)
  with None show ?thesis
    by (auto simp: validate_env_def split: option.splits)
next
  case (Some key)
  then have "\<not> (\<not> missing e ''SERVER_URL'' \<and> \<not> missing e ''API_KEY'' \<and> \<not> missing e ''NODE_NAME'')"
    using find_missing_None [of e] by simp
  with Some show ?thesis
    by (auto simp: validate_env_def)
qed

lemma missing_stops_startup:
  "missing e ''NODE_NAME'' \<Longrightarrow> \<exists>err. startup e h other = Inl err"
  using validate_env_Inr [of e]
  by (cases "validate_env e") (auto simp: startup_def)

lemma startup_Inr_name:
  assumes "startup e h other = Inr cfg"
  shows "\<exists>v. e ''NODE_NAME'' = Some v \<and> trim v \<noteq> [] \<and> NODE_NAME cfg = trim v"
proof -
  from assms have v: "validate_env e = Inr ()" and c: "cfg = CONFIG e h"
    by (auto simp: startup_def split: sum.splits if_splits)
  from v have "\<not> missing e ''NODE_NAME''" by (simp add: validate_env_Inr)
  then obtain v where "e ''NODE_NAME'' = Some v" "v \<noteq> []" "trim v \<noteq> []"
    by (auto simp: missing_def split: option.splits)
  with c show ?thesis by (simp add: CONFIG_def or_else_def)
qed

text \<open>
  Claim C4, as the code has it. \<^verbatim>\<open>NODE_NAME\<close> is one of the three names in
  \<open>requiredEnv\<close>: validation falls through exactly when \<^verbatim>\<open>SERVER_URL\<close>, \<^verbatim>\<open>API_KEY\<close> and
  \<^verbatim>\<open>NODE_NAME\<close> are all set and not blank, the key is 64 hexadecimal characters and the URL
  starts with \<^verbatim>\<open>http://\<close> or \<^verbatim>\<open>https://\<close>. A missing, empty or blank \<^verbatim>\<open>NODE_NAME\<close> ends
  startup with \<^verbatim>\<open>process.exit(1)\<close>, and whenever startup succeeds the display name is the
  trimmed \<^verbatim>\<open>NODE_NAME\<close>: the host-name default is never taken.
\<close>

theorem startup_requires_node_name:
  "(validate_env e = Inr () \<longleftrightarrow>
      \<not> missing e ''SERVER_URL'' \<and> \<not> missing e ''API_KEY'' \<and> \<not> missing e ''NODE_NAME'' \<and>
      (\<exists>k u. e ''API_KEY'' = Some k \<and> \<not> api_key_rejected k \<and>
             e ''SERVER_URL'' = Some u \<and> \<not> server_url_rejected u)) \<and>
   (missing e ''NODE_NAME'' \<longrightarrow> (\<exists>err. startup e h other = Inl err)) \<and>
   (startup e h other = Inr cfg \<longrightarrow>
      (\<exists>v. e ''NODE_NAME'' = Some v \<and> trim v \<noteq> [] \<and> NODE_NAME cfg = trim v))"
proof (intro conjI impI)
  show "validate_env e = Inr () \<longleftrightarrow>
      \<not> missing e ''SERVER_URL'' \<and> \<not> missing e ''API_KEY'' \<and> \<not> missing e ''NODE_NAME'' \<and>
      (\<exists>k u. e ''API_KEY'' = Some k \<and> \<not> api_key_rejected k \<and>
             e ''SERVER_URL'' = Some u \<and> \<not> server_url_rejected u)"
    by (rule validate_env_Inr)
next
  assume "missing e ''NODE_NAME''"
  then show "\<exists>err. startup e h other = Inl err" by (rule missing_stops_startup)
next
  assume "startup e h other = Inr cfg"
  then show "\<exists>v. e ''NODE_NAME'' = Some v \<and> trim v \<noteq> [] \<and> NODE_NAME cfg = trim v"
    by (rule startup_Inr_name)
qed

lemma example_startup: "startup example_env ''host-1'' False = Inr example_config"
  by code_simp

text \<open>
  Claim C4 as stated fails: with a valid \<^verbatim>\<open>SERVER_URL\<close> and \<^verbatim>\<open>API_KEY\<close> and no
  \<^verbatim>\<open>NODE_NAME\<close>, startup ends with the error for the missing variable.
\<close>

theorem node_name_unset_counterexample:
  "startup (example_env(''NODE_NAME'' := None)) ''host-1'' False = Inl (MissingEnv ''NODE_NAME'')"
  by code_simp

theorem startup_requires_node_name_witness:
  "missing (example_env(''NODE_NAME'' := None)) ''NODE_NAME'' \<and>
   (\<exists>err. startup (example_env(''NODE_NAME'' := None)) ''host-1'' False = Inl err) \<and>
   startup example_env ''host-1'' False = Inr example_config \<and>
   validate_env example_env = Inr () \<and>
   NODE_NAME example_config = ''node-1''"
proof -
  have m: "missing (example_env(''NODE_NAME'' := None)) ''NODE_NAME''"
    by (simp add: missing_def)
  have s: "startup example_env ''host-1'' False = Inr example_config"
    by (rule example_startup)
  have v: "validate_env example_env = Inr ()"
    using s by (auto simp: startup_def split: sum.splits)
  have t: "trim ''node-1'' = ''node-1''" by code_simp
  from startup_requires_node_name [of "example_env(''NODE_NAME'' := None)" "''host-1''" False example_config] m
  have a: "\<exists>err. startup (example_env(''NODE_NAME'' := None)) ''host-1'' False = Inl err" by blast
  from startup_requires_node_name [of example_env "''host-1''" False example_config] s
  obtain v where "example_env ''NODE_NAME'' = Some v" "NODE_NAME example_config = trim v" by blast
  then have "NODE_NAME example_config = ''node-1''" using t by (simp add: example_env_def)
  with m a s v show ?thesis by simp
qed

subsection \<open>The report interval\<close>

text \<open>Whenever \<^verbatim>\<open>parseInt\<close> reads a number the floor of 500 holds.\<close>

lemma report_interval_floor_or_NaN:
  "REPORT_INTERVAL (CONFIG e h) = NaN \<or> js_ge (REPORT_INTERVAL (CONFIG e h)) (Num 500)"
  by (cases "parseInt (or_else (e ''REPORT_INTERVAL'') ''1000'')") (simp_all add: CONFIG_def)

text \<open>
  Claim C9 at the input \<^verbatim>\<open>REPORT_INTERVAL=abc\<close>: \<^verbatim>\<open>parseInt\<close> gives \<^verbatim>\<open>NaN\<close>,
  \<^verbatim>\<open>Math.max(500, NaN)\<close> is \<^verbatim>\<open>NaN\<close>, and \<^verbatim>\<open>NaN >= 500\<close> is false: the configured
  interval is not at least 500.
\<close>

theorem report_interval_not_a_number:
  "REPORT_INTERVAL (CONFIG (example_env(''REPORT_INTERVAL'' \<mapsto> ''abc'')) ''host-1'') = NaN \<and>
   \<not> js_ge (REPORT_INTERVAL (CONFIG (example_env(''REPORT_INTERVAL'' \<mapsto> ''abc'')) ''host-1'')) (Num 500)"
  by code_simp


section \<open>The latency probe\<close>

lemma measureLatency_off: "\<not> LATENCY_TEST cfg \<Longrightarrow> measureLatency cfg r st = (0, st)"
  by (simp add: measureLatency_def)

lemma measureLatency_on:
  assumes "LATENCY_TEST cfg"
  shows "requests (snd (measureLatency cfg r st)) = requests st @ [Get (SERVER_URL cfg) 5000]"
    and "now (snd (measureLatency cfg r st)) - now st = int (snd r)"
    and "fst (measureLatency cfg r st) =
           (case fst r of
              Response status d \<Rightarrow>
                if 200 \<le> status \<and> status < 300 then now (snd (measureLatency cfg r st)) - now st
                else 9999
            | NoResponse \<Rightarrow> 9999)"
  using assms
  by (auto simp: measureLatency_def Let_def issue_def elapse_def ping_request_def validateStatus_def
      split: option.splits http_outcome.splits)

text \<open>
  Claim C3, as the code has it. With \<^verbatim>\<open>LATENCY_TEST\<close> off \<^verbatim>\<open>measureLatency\<close> returns 0 and
  leaves the world as it is: no request is made. Otherwise it makes one GET of the base URL and
  returns the milliseconds that \<^verbatim>\<open>Date.now()\<close> advanced only when axios fulfils the promise,
  that is for a status from 200 to 299; for every other status, as for a missing response, the
  promise is rejected and the result is 9999.
\<close>

theorem measureLatency_result:
  "(\<not> LATENCY_TEST cfg \<longrightarrow> measureLatency cfg r st = (0, st)) \<and>
   (LATENCY_TEST cfg \<longrightarrow>
      requests (snd (measureLatency cfg r st)) = requests st @ [Get (SERVER_URL cfg) 5000] \<and>
      now (snd (measureLatency cfg r st)) - now st = int (snd r) \<and>
      fst (measureLatency cfg r st) =
        (case fst r of
           Response status d \<Rightarrow>
             if 200 \<le> status \<and> status < 300 then now (snd (measureLatency cfg r st)) - now st
             else 9999
         | NoResponse \<Rightarrow> 9999))"
  using measureLatency_off [of cfg r st] measureLatency_on [of cfg r st] by simp

text \<open>
  Claim C3 as stated fails: the collector answers the GET with status 500 after 42 ms, and
  the result is 9999.
\<close>

theorem latency_of_error_status_counterexample:
  "fst (measureLatency example_config (server_error, 42) (initial ''host-1'' 1000)) = 9999 \<and>
   now (snd (measureLatency example_config (server_error, 42) (initial ''host-1'' 1000)))
     - now (initial ''host-1'' 1000) = 42"
  by code_simp

theorem measureLatency_result_witness:
  "LATENCY_TEST example_config \<and>
   fst (measureLatency example_config (accepted, 37) (initial ''host-1'' 1000)) = 37 \<and>
   fst (measureLatency example_config (server_error, 42) (initial ''host-1'' 1000)) = 9999 \<and>
   fst (measureLatency example_config (NoResponse, 5000) (initial ''host-1'' 1000)) = 9999 \<and>
   \<not> LATENCY_TEST (example_config\<lparr>LATENCY_TEST := False\<rparr>) \<and>
   measureLatency (example_config\<lparr>LATENCY_TEST := False\<rparr>) (NoResponse, 5000) (initial ''host-1'' 1000)
     = (0, initial ''host-1'' 1000)"
proof -
  have on: "LATENCY_TEST example_config" by code_simp
  have off: "\<not> LATENCY_TEST (example_config\<lparr>LATENCY_TEST := False\<rparr>)" by simp
  have a: "fst (measureLatency example_config (accepted, 37) (initial ''host-1'' 1000)) = 37"
    using measureLatency_result [of example_config "(accepted, 37)" "initial ''host-1'' 1000"] on
    by (simp add: accepted_def)
  have b: "fst (measureLatency example_config (server_error, 42) (initial ''host-1'' 1000)) = 9999"
    using measureLatency_result [of example_config "(server_error, 42)" "initial ''host-1'' 1000"] on
    by (simp add: server_error_def)
  have c: "fst (measureLatency example_config (NoResponse, 5000) (initial ''host-1'' 1000)) = 9999"
    using measureLatency_result [of example_config "(NoResponse, 5000)" "initial ''host-1'' 1000"] on
    by simp
  have d: "measureLatency (example_config\<lparr>LATENCY_TEST := False\<rparr>) (NoResponse, 5000)
             (initial ''host-1'' 1000) = (0, initial ''host-1'' 1000)"
    using measureLatency_result [of "example_config\<lparr>LATENCY_TEST := False\<rparr>" "(NoResponse, 5000)"
        "initial ''host-1'' 1000"] off
    by simp
  from on off a b c d show ?thesis by simp
qed


section \<open>The report cycle\<close>

subsection \<open>scheduleReconnect\<close>

lemma CONFIG_constants:
  "MAX_RECONNECT_ATTEMPTS (CONFIG e h) = 20" "RECONNECT_BASE_DELAY (CONFIG e h) = 3000"
  by (simp_all add: CONFIG_def)

lemma example_constants:
  "MAX_RECONNECT_ATTEMPTS example_config = 20" "RECONNECT_BASE_DELAY example_config = 3000"
  by (simp_all add: example_config_def CONFIG_constants)

lemma scheduleReconnect_exit:
  "reconnectAttempts st \<ge> MAX_RECONNECT_ATTEMPTS cfg \<Longrightarrow>
   scheduleReconnect cfg st = st\<lparr>exit_code := Some 1\<rparr>"
  by (simp add: scheduleReconnect_def)

lemma scheduleReconnect_retry:
  "reconnectAttempts st < MAX_RECONNECT_ATTEMPTS cfg \<Longrightarrow>
   scheduleReconnect cfg st =
     st\<lparr>reconnectAttempts := reconnectAttempts st + 1,
        timeouts := timeouts st @ [RECONNECT_BASE_DELAY cfg * (1.5 powi reconnectAttempts st)]\<rparr>"
  by (simp add: scheduleReconnect_def Let_def)

lemma scheduleReconnect_frame:
  "isRegistered (scheduleReconnect cfg st) = isRegistered st"
  "requests (scheduleReconnect cfg st) = requests st"
  "os_hostname (scheduleReconnect cfg st) = os_hostname st"
  "now (scheduleReconnect cfg st) = now st"
  "fired (scheduleReconnect cfg st) = fired st"
  "interval (scheduleReconnect cfg st) = interval st"
  by (simp_all add: scheduleReconnect_def Let_def)

lemma scheduleReconnect_bound:
  assumes "0 \<le> reconnectAttempts st" "reconnectAttempts st \<le> MAX_RECONNECT_ATTEMPTS cfg"
  shows "0 \<le> reconnectAttempts (scheduleReconnect cfg st) \<and>
         reconnectAttempts (scheduleReconnect cfg st) \<le> MAX_RECONNECT_ATTEMPTS cfg"
  using assms by (simp add: scheduleReconnect_def Let_def)

subsection \<open>registerNode\<close>

lemma registerNode_success:
  "fst (registerNode cfg r st) \<longleftrightarrow> (\<exists>d. axios_result (fst r) = Some d \<and> success d)"
  by (simp add: registerNode_def Let_def split: option.splits)

lemma registerNode_failed:
  "\<not> fst (registerNode cfg r st) \<Longrightarrow>
   snd (registerNode cfg r st) = elapse (snd r) (issue (register_request cfg st) st)"
  by (simp add: registerNode_def Let_def split: option.splits if_splits)

lemma registerNode_succeeded:
  "fst (registerNode cfg r st) \<Longrightarrow>
   snd (registerNode cfg r st) =
     (elapse (snd r) (issue (register_request cfg st) st))\<lparr>isRegistered := True, reconnectAttempts := 0\<rparr>"
  by (simp add: registerNode_def Let_def split: option.splits if_splits)

lemma register_request_cong:
  "os_hostname a = os_hostname b \<Longrightarrow> register_request cfg a = register_request cfg b"
  by (simp add: register_request_def)

subsection \<open>sendReport, branch by branch\<close>

lemma sendReport_registration_failed:
  "\<not> isRegistered st \<Longrightarrow> \<not> fst (registerNode cfg (register_reply env) st) \<Longrightarrow>
   sendReport cfg env st =
     scheduleReconnect cfg (elapse (snd (register_reply env)) (issue (register_request cfg st) st))"
  by (simp add: sendReport_def case_prod_beta registerNode_failed)

lemma sendReport_registration_succeeded:
  "\<not> isRegistered st \<Longrightarrow> fst (registerNode cfg (register_reply env) st) \<Longrightarrow>
   sendReport cfg env st = collect_and_send cfg env (snd (registerNode cfg (register_reply env) st))"
  by (simp add: sendReport_def case_prod_beta)

lemma sendReport_registered:
  "isRegistered st \<Longrightarrow> sendReport cfg env st = collect_and_send cfg env st"
  by (simp add: sendReport_def)

lemma collect_and_send_null:
  "fst (stats_reply env) = None \<Longrightarrow>
   collect_and_send cfg env st = elapse (snd (stats_reply env)) st"
  by (simp add: collect_and_send_def)

lemma measureLatency_frame:
  "isRegistered (snd (measureLatency cfg r st)) = isRegistered st"
  "reconnectAttempts (snd (measureLatency cfg r st)) = reconnectAttempts st"
  "exit_code (snd (measureLatency cfg r st)) = exit_code st"
  "timeouts (snd (measureLatency cfg r st)) = timeouts st"
  "os_hostname (snd (measureLatency cfg r st)) = os_hostname st"
  "requests (snd (measureLatency cfg r st)) =
     requests st @ (if LATENCY_TEST cfg then [ping_request cfg] else [])"
  by (simp_all add: measureLatency_def Let_def issue_def elapse_def split: option.splits)

text \<open>
  A cycle that has a snapshot: \<open>m\<close> is the state in which the answer to the report POST
  arrives.
\<close>

lemma collect_and_send_posted:
  assumes "fst (stats_reply env) = Some stats"
  shows "\<exists>m latency.
           collect_and_send cfg env st =
             (case axios_result (fst (report_reply env)) of
                Some res \<Rightarrow> m\<lparr>reconnectAttempts := 0\<rparr>
              | None \<Rightarrow> scheduleReconnect cfg (m\<lparr>isRegistered := False\<rparr>)) \<and>
           isRegistered m = isRegistered st \<and> reconnectAttempts m = reconnectAttempts st \<and>
           exit_code m = exit_code st \<and> timeouts m = timeouts st \<and>
           os_hostname m = os_hostname st \<and>
           requests m = requests st @ (if LATENCY_TEST cfg then [ping_request cfg] else [])
                          @ [report_request cfg latency stats]"
proof -
  obtain latency st2 where ml: "measureLatency cfg (ping_reply env) (elapse (snd (stats_reply env)) st) = (latency, st2)"
    by (cases "measureLatency cfg (ping_reply env) (elapse (snd (stats_reply env)) st)")
  let ?m = "elapse (snd (report_reply env)) (issue (report_request cfg latency stats) st2)"
  have st2: "st2 = snd (measureLatency cfg (ping_reply env) (elapse (snd (stats_reply env)) st))"
    using ml by simp
  have "collect_and_send cfg env st =
          (case axios_result (fst (report_reply env)) of
             Some res \<Rightarrow> ?m\<lparr>reconnectAttempts := 0\<rparr>
           | None \<Rightarrow> scheduleReconnect cfg (?m\<lparr>isRegistered := False\<rparr>))"
    using assms ml by (simp add: collect_and_send_def Let_def)
  moreover have "isRegistered ?m = isRegistered st" "reconnectAttempts ?m = reconnectAttempts st"
    "exit_code ?m = exit_code st" "timeouts ?m = timeouts st" "os_hostname ?m = os_hostname st"
    "requests ?m = requests st @ (if LATENCY_TEST cfg then [ping_request cfg] else [])
                          @ [report_request cfg latency stats]"
    unfolding st2 by (simp_all add: issue_def elapse_def measureLatency_frame)
  ultimately show ?thesis by blast
qed

lemma collect_and_send_requests:
  "\<exists>rest. requests (collect_and_send cfg env st) = requests st @ rest"
proof (cases "fst (stats_reply env)")
  case None
  then show ?thesis by (simp add: collect_and_send_null elapse_def)
next
  case (Some stats)
  from collect_and_send_posted [OF Some, of cfg st] show ?thesis
    by (auto simp: scheduleReconnect_frame split: option.splits)
qed

lemma sendReport_os_hostname: "os_hostname (sendReport cfg env st) = os_hostname st"
proof (cases "isRegistered st \<or> fst (registerNode cfg (register_reply env) st)")
  case False
  then show ?thesis
    by (simp add: sendReport_registration_failed scheduleReconnect_frame issue_def elapse_def)
next
  case True
  define s1 where "s1 = (if isRegistered st then st else snd (registerNode cfg (register_reply env) st))"
  have h: "os_hostname s1 = os_hostname st"
    using True by (auto simp: s1_def registerNode_succeeded issue_def elapse_def)
  have c: "sendReport cfg env st = collect_and_send cfg env s1"
    using True by (auto simp: s1_def sendReport_registered sendReport_registration_succeeded)
  show ?thesis
  proof (cases "fst (stats_reply env)")
    case None
    then show ?thesis using h c by (simp add: collect_and_send_null elapse_def)
  next
    case (Some stats)
    from collect_and_send_posted [OF Some, of cfg s1] h c show ?thesis
      by (auto simp: scheduleReconnect_frame split: option.splits)
  qed
qed

lemma sendReport_sent:
  assumes "isRegistered st \<or> fst (registerNode cfg (register_reply env) st)"
    "fst (stats_reply env) \<noteq> None" "axios_result (fst (report_reply env)) \<noteq> None"
  shows "isRegistered (sendReport cfg env st)" "reconnectAttempts (sendReport cfg env st) = 0"
    "timeouts (sendReport cfg env st) = timeouts st" "exit_code (sendReport cfg env st) = exit_code st"
proof -
  from assms obtain stats d where s: "fst (stats_reply env) = Some stats"
    and d: "axios_result (fst (report_reply env)) = Some d" by auto
  define s1 where "s1 = (if isRegistered st then st else snd (registerNode cfg (register_reply env) st))"
  have c: "sendReport cfg env st = collect_and_send cfg env s1"
    using assms(1) by (auto simp: s1_def sendReport_registered sendReport_registration_succeeded)
  have f: "isRegistered s1" "timeouts s1 = timeouts st" "exit_code s1 = exit_code st"
    using assms(1) by (auto simp: s1_def registerNode_succeeded issue_def elapse_def)
  from collect_and_send_posted [OF s, of cfg s1] d f
  show "isRegistered (sendReport cfg env st)" "reconnectAttempts (sendReport cfg env st) = 0"
    "timeouts (sendReport cfg env st) = timeouts st" "exit_code (sendReport cfg env st) = exit_code st"
    by (auto simp: c)
qed

lemma sendReport_transmission_failed:
  assumes "isRegistered st \<or> fst (registerNode cfg (register_reply env) st)"
    "fst (stats_reply env) \<noteq> None" "axios_result (fst (report_reply env)) = None"
  shows "\<exists>m. sendReport cfg env st = scheduleReconnect cfg (m\<lparr>isRegistered := False\<rparr>) \<and>
             reconnectAttempts m = (if isRegistered st then reconnectAttempts st else 0) \<and>
             timeouts m = timeouts st \<and> exit_code m = exit_code st \<and>
             os_hostname m = os_hostname st"
proof -
  from assms obtain stats where s: "fst (stats_reply env) = Some stats" by auto
  define s1 where "s1 = (if isRegistered st then st else snd (registerNode cfg (register_reply env) st))"
  have c: "sendReport cfg env st = collect_and_send cfg env s1"
    using assms(1) by (auto simp: s1_def sendReport_registered sendReport_registration_succeeded)
  have f: "reconnectAttempts s1 = (if isRegistered st then reconnectAttempts st else 0)"
    "timeouts s1 = timeouts st" "exit_code s1 = exit_code st" "os_hostname s1 = os_hostname st"
    using assms(1) by (auto simp: s1_def registerNode_succeeded issue_def elapse_def)
  from collect_and_send_posted [OF s, of cfg s1] assms(3) f show ?thesis
    by (auto simp: c)
qed

lemma sendReport_unregistered_requests:
  assumes "\<not> isRegistered st"
  shows "\<exists>rest. requests (sendReport cfg env st) = requests st @ register_request cfg st # rest \<and>
                (\<not> fst (registerNode cfg (register_reply env) st) \<longrightarrow> rest = [])"
proof (cases "fst (registerNode cfg (register_reply env) st)")
  case False
  from sendReport_registration_failed [OF assms False] False show ?thesis
    by (simp add: scheduleReconnect_frame issue_def elapse_def)
next
  case True
  let ?s1 = "snd (registerNode cfg (register_reply env) st)"
  have r: "requests ?s1 = requests st @ [register_request cfg st]"
    by (simp add: registerNode_succeeded [OF True] issue_def elapse_def)
  from collect_and_send_requests [of cfg env ?s1] obtain rest where
    "requests (collect_and_send cfg env ?s1) = requests ?s1 @ rest" by blast
  with r True show ?thesis
    by (simp add: sendReport_registration_succeeded [OF assms True])
qed

subsection \<open>Failures in a row\<close>

lemma failed_cycle:
  assumes "failed cfg env st"
  shows "\<exists>m. sendReport cfg env st = scheduleReconnect cfg m \<and> \<not> isRegistered m \<and>
             reconnectAttempts m = reconnectAttempts st \<and> exit_code m = exit_code st \<and>
             timeouts m = timeouts st"
proof (cases "isRegistered st")
  case False
  with assms have "\<not> fst (registerNode cfg (register_reply env) st)" by (simp add: failed_def)
  with False have "sendReport cfg env st =
      scheduleReconnect cfg (elapse (snd (register_reply env)) (issue (register_request cfg st) st))"
    by (rule sendReport_registration_failed)
  with False show ?thesis by (auto simp: issue_def elapse_def)
next
  case True
  with assms obtain stats where s: "fst (stats_reply env) = Some stats"
    and r: "axios_result (fst (report_reply env)) = None"
    by (auto simp: failed_def)
  from collect_and_send_posted [OF s, of cfg st] r True show ?thesis
    by (auto simp: sendReport_registered)
qed

lemma failed_cycle_retry:
  assumes "failed cfg env st" "alive st" "reconnectAttempts st < MAX_RECONNECT_ATTEMPTS cfg"
  shows "alive (fire cfg env st)" "\<not> isRegistered (fire cfg env st)"
    "reconnectAttempts (fire cfg env st) = reconnectAttempts st + 1"
    "timeouts (fire cfg env st) =
       timeouts st @ [RECONNECT_BASE_DELAY cfg * (1.5 powi reconnectAttempts st)]"
proof -
  from failed_cycle [OF assms(1)] obtain m where
    m: "sendReport cfg env st = scheduleReconnect cfg m" "\<not> isRegistered m"
      "reconnectAttempts m = reconnectAttempts st" "exit_code m = exit_code st"
      "timeouts m = timeouts st"
    by blast
  have f: "fire cfg env st = scheduleReconnect cfg m" using assms(2) m(1) by (simp add: fire_def)
  have "reconnectAttempts m < MAX_RECONNECT_ATTEMPTS cfg" using assms(3) m(3) by simp
  note sr = scheduleReconnect_retry [OF this]
  show "alive (fire cfg env st)" using assms(2) m(4) by (simp add: f sr alive_def)
  show "\<not> isRegistered (fire cfg env st)" using m(2) by (simp add: f sr)
  show "reconnectAttempts (fire cfg env st) = reconnectAttempts st + 1" using m(3) by (simp add: f sr)
  show "timeouts (fire cfg env st) =
       timeouts st @ [RECONNECT_BASE_DELAY cfg * (1.5 powi reconnectAttempts st)]"
    using m(3,5) by (simp add: f sr)
qed

lemma failed_cycle_exit:
  assumes "failed cfg env st" "alive st" "reconnectAttempts st \<ge> MAX_RECONNECT_ATTEMPTS cfg"
  shows "exit_code (fire cfg env st) = Some 1"
proof -
  from failed_cycle [OF assms(1)] obtain m where
    m: "sendReport cfg env st = scheduleReconnect cfg m"
      "reconnectAttempts m = reconnectAttempts st"
    by blast
  have "reconnectAttempts m \<ge> MAX_RECONNECT_ATTEMPTS cfg" using assms(3) m(2) by simp
  from scheduleReconnect_exit [OF this] show ?thesis using assms(2) m(1) by (simp add: fire_def)
qed

lemma cycles_append: "cycles cfg (xs @ ys) st = cycles cfg ys (cycles cfg xs st)"
  by (induction xs arbitrary: st) simp_all

lemma all_failed_append:
  "all_failed cfg (xs @ ys) st \<longleftrightarrow> all_failed cfg xs st \<and> all_failed cfg ys (cycles cfg xs st)"
  by (induction xs arbitrary: st) auto

lemma cycles_dead: "\<not> alive st \<Longrightarrow> cycles cfg envs st = st"
  by (induction envs) (simp_all add: fire_def)

lemma cycles_os_hostname: "os_hostname (cycles cfg envs st) = os_hostname st"
  by (induction envs arbitrary: st) (simp_all add: fire_def sendReport_os_hostname)

lemma failures_in_a_row:
  assumes "all_failed cfg envs st" "alive st"
    "reconnectAttempts st + int (length envs) \<le> MAX_RECONNECT_ATTEMPTS cfg"
  shows "alive (cycles cfg envs st) \<and>
         reconnectAttempts (cycles cfg envs st) = reconnectAttempts st + int (length envs) \<and>
         timeouts (cycles cfg envs st) =
           timeouts st @ map (\<lambda>i. RECONNECT_BASE_DELAY cfg * (1.5 powi (reconnectAttempts st + int i)))
                             [0..<length envs] \<and>
         (envs \<noteq> [] \<longrightarrow> \<not> isRegistered (cycles cfg envs st))"
  using assms
proof (induction envs arbitrary: st rule: rev_induct)
  case Nil
  then show ?case by simp
next
  case (snoc env envs)
  from snoc.prems have af: "all_failed cfg envs st" and fl: "failed cfg env (cycles cfg envs st)"
    by (simp_all add: all_failed_append)
  from snoc.prems have le: "reconnectAttempts st + int (length envs) \<le> MAX_RECONNECT_ATTEMPTS cfg"
    by simp
  note ih = snoc.IH [OF af snoc.prems(2) le]
  let ?s = "cycles cfg envs st"
  have lt: "reconnectAttempts ?s < MAX_RECONNECT_ATTEMPTS cfg" using ih snoc.prems(3) by simp
  from ih have al: "alive ?s" by simp
  note fr = failed_cycle_retry [OF fl al lt]
  have c: "cycles cfg (envs @ [env]) st = fire cfg env ?s" by (simp add: cycles_append)
  show ?case using ih fr by (simp add: c add.assoc)
qed

lemma exit_after_failures:
  assumes "all_failed cfg envs st" "alive st" "0 \<le> MAX_RECONNECT_ATTEMPTS cfg"
    "reconnectAttempts st + int (length envs) > MAX_RECONNECT_ATTEMPTS cfg"
    "reconnectAttempts st \<le> MAX_RECONNECT_ATTEMPTS cfg"
  shows "exit_code (cycles cfg envs st) = Some 1 \<and>
         cycles cfg envs st =
           cycles cfg (take (nat (MAX_RECONNECT_ATTEMPTS cfg - reconnectAttempts st) + 1) envs) st"
proof -
  define n where "n = nat (MAX_RECONNECT_ATTEMPTS cfg - reconnectAttempts st)"
  have n: "int n = MAX_RECONNECT_ATTEMPTS cfg - reconnectAttempts st" "n < length envs"
    using assms(4,5) by (simp_all add: n_def)
  then obtain env where e: "drop n envs = env # drop (Suc n) envs"
    by (metis Cons_nth_drop_Suc)
  have sp: "envs = take n envs @ env # drop (Suc n) envs"
    using e by (metis append_take_drop_id)
  have t1: "take (Suc n) envs = take n envs @ [env]"
    using e n(2) by (metis take_Suc_conv_app_nth Cons_nth_drop_Suc list.inject)
  have af: "all_failed cfg (take n envs) st" and fl: "failed cfg env (cycles cfg (take n envs) st)"
    using assms(1) by (subst (asm) sp, simp add: all_failed_append)+
  have "reconnectAttempts st + int (length (take n envs)) \<le> MAX_RECONNECT_ATTEMPTS cfg"
    using n by simp
  from failures_in_a_row [OF af assms(2) this]
  have al: "alive (cycles cfg (take n envs) st)"
    and ra: "reconnectAttempts (cycles cfg (take n envs) st) \<ge> MAX_RECONNECT_ATTEMPTS cfg"
    using n by simp_all
  have ex: "exit_code (fire cfg env (cycles cfg (take n envs) st)) = Some 1"
    by (rule failed_cycle_exit [OF fl al ra])
  have c1: "cycles cfg (take (Suc n) envs) st = fire cfg env (cycles cfg (take n envs) st)"
    by (simp only: t1 cycles_append cycles.simps)
  have "cycles cfg envs st = cycles cfg (drop (Suc n) envs) (cycles cfg (take (Suc n) envs) st)"
    by (subst sp) (simp only: c1 cycles_append cycles.simps)
  also have "\<dots> = cycles cfg (take (Suc n) envs) st"
    using ex by (intro cycles_dead) (simp add: c1 alive_def)
  finally have eq: "cycles cfg envs st = cycles cfg (take (Suc n) envs) st" .
  have "exit_code (cycles cfg envs st) = Some 1" using ex by (simp only: eq c1)
  with eq show ?thesis by (simp add: n_def)
qed

lemma fire_unregistered:
  assumes "\<not> isRegistered st" "axios_result (fst (register_reply env)) = None"
  shows "\<not> isRegistered (fire cfg env st)"
proof (cases "alive st")
  case False
  with assms(1) show ?thesis by (simp add: fire_def)
next
  case True
  from assms(2) have "\<not> fst (registerNode cfg (register_reply env) st)"
    by (simp add: registerNode_success)
  from sendReport_registration_failed [OF assms(1) this] True assms(1) show ?thesis
    by (simp add: fire_def scheduleReconnect_frame issue_def elapse_def)
qed

lemma all_failed_when_down:
  assumes "\<not> isRegistered st" "\<forall>env \<in> set envs. axios_result (fst (register_reply env)) = None"
  shows "all_failed cfg envs st"
  using assms
proof (induction envs arbitrary: st)
  case Nil
  then show ?case by simp
next
  case (Cons env envs)
  from Cons.prems have d: "axios_result (fst (register_reply env)) = None" by simp
  with Cons.prems(1) have "failed cfg env st" by (simp add: failed_def registerNode_success)
  moreover have "all_failed cfg envs (fire cfg env st)"
    using Cons.prems by (intro Cons.IH fire_unregistered) simp_all
  ultimately show ?case by simp
qed

subsection \<open>The example cycles\<close>

lemma initial_fields:
  "alive (initial h t)" "\<not> isRegistered (initial h t)" "reconnectAttempts (initial h t) = 0"
  "timeouts (initial h t) = []" "requests (initial h t) = []" "os_hostname (initial h t) = h"
  by (simp_all add: initial_def alive_def)

lemma collector_down_rejected:
  "axios_result (fst (register_reply collector_down)) = None"
  "axios_result (fst (report_reply collector_down)) = None"
  "fst (stats_reply collector_down) = Some example_stats"
  by (simp_all add: collector_down_def)

lemma example_replies:
  "fst (registerNode cfg (register_reply all_well) st)"
  "fst (registerNode cfg (register_reply no_snapshot) st)"
  "fst (registerNode cfg (register_reply report_lost) st)"
  "fst (stats_reply no_snapshot) = None"
  "snd (stats_reply no_snapshot) = 250"
  "fst (stats_reply all_well) \<noteq> None"
  "fst (stats_reply report_lost) \<noteq> None"
  "axios_result (fst (report_reply all_well)) \<noteq> None"
  "axios_result (fst (report_reply report_lost)) = None"
  by (simp_all add: registerNode_success all_well_def no_snapshot_def report_lost_def accepted_def
      validateStatus_def)

lemma down_all_failed:
  "all_failed cfg (replicate n collector_down) (initial h t)"
  by (rule all_failed_when_down) (simp_all add: initial_fields collector_down_rejected)

lemma down_run:
  assumes "n \<le> 20"
  shows "alive (cycles example_config (replicate n collector_down) (initial h t))"
    and "reconnectAttempts (cycles example_config (replicate n collector_down) (initial h t)) = int n"
    and "n \<noteq> 0 \<Longrightarrow> \<not> isRegistered (cycles example_config (replicate n collector_down) (initial h t))"
proof -
  have "reconnectAttempts (initial h t) + int (length (replicate n collector_down))
          \<le> MAX_RECONNECT_ATTEMPTS example_config"
    using assms by (simp add: initial_fields example_constants)
  note r = failures_in_a_row [OF down_all_failed initial_fields(1) this]
  from r show "alive (cycles example_config (replicate n collector_down) (initial h t))" by simp
  from r show "reconnectAttempts (cycles example_config (replicate n collector_down) (initial h t)) = int n"
    by (simp add: initial_fields)
  from r show "n \<noteq> 0 \<Longrightarrow> \<not> isRegistered (cycles example_config (replicate n collector_down) (initial h t))"
    by simp
qed

subsection \<open>Reconnect delays and resets\<close>

text \<open>
  Claim C5. With the constants of \<^verbatim>\<open>CONFIG\<close>, a call of \<^verbatim>\<open>scheduleReconnect\<close> that finds
  \<open>reconnectAttempts = k\<close> with \<open>0 \<le> k < 20\<close> schedules the retry after \<open>3000 * 1.5 ^ k\<close> ms
  and counts it; cycles that fail one after the other from a counter of 0 schedule the delays
  \<open>3000 * 1.5 ^ k\<close> for \<open>k = 0, 1, 2, \<dots>\<close>, up to 20 of them. A successful registration sets
  the counter to 0, and so does a cycle whose report POST is fulfilled, as does the continuation
  of a task whose report POST is fulfilled.
\<close>

theorem reconnect_delays:
  "(0 \<le> k \<and> k < 20 \<and> reconnectAttempts st = k \<longrightarrow>
      scheduleReconnect (CONFIG e h) st =
        st\<lparr>reconnectAttempts := k + 1, timeouts := timeouts st @ [3000 * 1.5 ^ nat k]\<rparr>) \<and>
   (alive st \<and> reconnectAttempts st = 0 \<and> all_failed (CONFIG e h) envs st \<and> length envs \<le> 20 \<longrightarrow>
      timeouts (cycles (CONFIG e h) envs st) =
        timeouts st @ map (\<lambda>k. 3000 * 1.5 ^ k) [0..<length envs]) \<and>
   (fst (registerNode cfg r st) \<longrightarrow>
      reconnectAttempts (snd (registerNode cfg r st)) = 0) \<and>
   ((isRegistered st \<or> fst (registerNode cfg (register_reply env) st)) \<and>
    fst (stats_reply env) \<noteq> None \<and> axios_result (fst (report_reply env)) \<noteq> None \<longrightarrow>
      reconnectAttempts (sendReport cfg env st) = 0) \<and>
   (axios_result rp \<noteq> None \<longrightarrow>
      resume cfg AwaitReport (Http rp) st = Some (Finished, st\<lparr>reconnectAttempts := 0\<rparr>))"
proof (intro conjI impI)
  assume "0 \<le> k \<and> k < 20 \<and> reconnectAttempts st = k"
  then show "scheduleReconnect (CONFIG e h) st =
        st\<lparr>reconnectAttempts := k + 1, timeouts := timeouts st @ [3000 * 1.5 ^ nat k]\<rparr>"
    by (simp add: scheduleReconnect_retry CONFIG_constants power_int_def)
next
  assume a: "alive st \<and> reconnectAttempts st = 0 \<and> all_failed (CONFIG e h) envs st \<and> length envs \<le> 20"
  then have "reconnectAttempts st + int (length envs) \<le> MAX_RECONNECT_ATTEMPTS (CONFIG e h)"
    by (simp add: CONFIG_constants)
  from failures_in_a_row [of "CONFIG e h" envs st, OF _ _ this] a
  show "timeouts (cycles (CONFIG e h) envs st) =
        timeouts st @ map (\<lambda>k. 3000 * 1.5 ^ k) [0..<length envs]"
    by (simp add: CONFIG_constants)
next
  assume "fst (registerNode cfg r st)"
  then show "reconnectAttempts (snd (registerNode cfg r st)) = 0"
    by (simp add: registerNode_succeeded)
next
  assume a: "(isRegistered st \<or> fst (registerNode cfg (register_reply env) st)) \<and>
    fst (stats_reply env) \<noteq> None \<and> axios_result (fst (report_reply env)) \<noteq> None"
  then obtain stats d where s: "fst (stats_reply env) = Some stats"
    and d: "axios_result (fst (report_reply env)) = Some d" by auto
  define s1 where "s1 = (if isRegistered st then st else snd (registerNode cfg (register_reply env) st))"
  have c: "sendReport cfg env st = collect_and_send cfg env s1"
    using a by (auto simp: s1_def sendReport_registered sendReport_registration_succeeded)
  from collect_and_send_posted [OF s, of cfg s1] d
  show "reconnectAttempts (sendReport cfg env st) = 0" by (auto simp: c)
next
  assume "axios_result rp \<noteq> None"
  then show "resume cfg AwaitReport (Http rp) st = Some (Finished, st\<lparr>reconnectAttempts := 0\<rparr>)"
    by auto
qed

theorem reconnect_delays_witness:
  "timeouts (cycles example_config (replicate 3 collector_down) (initial ''host-1'' 0))
     = [3000, 4500, 6750] \<and>
   scheduleReconnect example_config ((initial ''host-1'' 0)\<lparr>reconnectAttempts := 2\<rparr>)
     = (initial ''host-1'' 0)\<lparr>reconnectAttempts := 3, timeouts := [6750]\<rparr> \<and>
   fst (registerNode example_config (accepted, 120) ((initial ''host-1'' 0)\<lparr>reconnectAttempts := 2\<rparr>)) \<and>
   reconnectAttempts (snd (registerNode example_config (accepted, 120)
       ((initial ''host-1'' 0)\<lparr>reconnectAttempts := 2\<rparr>))) = 0 \<and>
   reconnectAttempts (sendReport example_config all_well
       ((initial ''host-1'' 0)\<lparr>reconnectAttempts := 2\<rparr>)) = 0"
proof -
  let ?st = "(initial ''host-1'' 0)\<lparr>reconnectAttempts := 2\<rparr>"
  note rd = reconnect_delays [where e = example_env and h = "''host-1''",
      folded example_config_def]
  have ok: "fst (registerNode example_config (accepted, 120) ?st)"
    by (simp add: registerNode_success accepted_def validateStatus_def)
  have ok': "fst (registerNode example_config (register_reply all_well) ?st)"
    by (simp add: registerNode_success all_well_def accepted_def validateStatus_def)
  have w: "fst (stats_reply all_well) \<noteq> None" "axios_result (fst (report_reply all_well)) \<noteq> None"
    by (simp_all add: all_well_def accepted_def validateStatus_def)
  have a: "timeouts (cycles example_config (replicate 3 collector_down) (initial ''host-1'' 0))
     = [3000, 4500, 6750]"
    using rd [of 0 "initial ''host-1'' 0" "replicate 3 collector_down"]
      down_all_failed [of example_config 3 "''host-1''" 0]
    by (simp add: initial_fields eval_nat_numeral)
  have b: "scheduleReconnect example_config ?st
     = (initial ''host-1'' 0)\<lparr>reconnectAttempts := 3, timeouts := [6750]\<rparr>"
    using rd [of 2 ?st] by (simp add: initial_def eval_nat_numeral)
  have c: "reconnectAttempts (snd (registerNode example_config (accepted, 120) ?st)) = 0"
    using rd [of 0 ?st "[]" example_config "(accepted, 120)"] ok by simp
  have d: "reconnectAttempts (sendReport example_config all_well ?st) = 0"
    using rd [of 0 ?st "[]" example_config "(accepted, 120)" all_well] ok' w by simp
  from a b ok c d show ?thesis by simp
qed

subsection \<open>The end of the reconnect budget\<close>

text \<open>
  Claim C6, as the code has it. From a counter of 0, up to 20 failures in a row leave the
  process running, with the counter at their number; the failure after those, the 21st, ends
  in \<^verbatim>\<open>process.exit(1)\<close>, and nothing that follows changes the state. Once the process has
  exited a timer runs nothing and the event loop takes no step: there are no further requests.
\<close>

theorem exit_follows_budget:
  "(alive st \<and> reconnectAttempts st = 0 \<and> all_failed (CONFIG e h) envs st \<and> length envs \<le> 20 \<longrightarrow>
      alive (cycles (CONFIG e h) envs st) \<and>
      reconnectAttempts (cycles (CONFIG e h) envs st) = int (length envs)) \<and>
   (alive st \<and> reconnectAttempts st = 0 \<and> all_failed (CONFIG e h) envs st \<and> length envs > 20 \<longrightarrow>
      exit_code (cycles (CONFIG e h) envs st) = Some 1 \<and>
      cycles (CONFIG e h) envs st = cycles (CONFIG e h) (take 21 envs) st) \<and>
   (\<not> alive st \<longrightarrow> fire cfg env st = st \<and> step cfg (st, ts) ev = None)"
proof (intro conjI impI)
  assume a: "alive st \<and> reconnectAttempts st = 0 \<and> all_failed (CONFIG e h) envs st \<and> length envs \<le> 20"
  then have "reconnectAttempts st + int (length envs) \<le> MAX_RECONNECT_ATTEMPTS (CONFIG e h)"
    by (simp add: CONFIG_constants)
  from failures_in_a_row [of "CONFIG e h" envs st, OF _ _ this] a
  show "alive (cycles (CONFIG e h) envs st)"
    and "reconnectAttempts (cycles (CONFIG e h) envs st) = int (length envs)"
    by simp_all
next
  assume a: "alive st \<and> reconnectAttempts st = 0 \<and> all_failed (CONFIG e h) envs st \<and> length envs > 20"
  then have x: "exit_code (cycles (CONFIG e h) envs st) = Some 1 \<and>
         cycles (CONFIG e h) envs st =
           cycles (CONFIG e h)
             (take (nat (MAX_RECONNECT_ATTEMPTS (CONFIG e h) - reconnectAttempts st) + 1) envs) st"
    by (intro exit_after_failures) (simp_all add: CONFIG_constants)
  from x show "exit_code (cycles (CONFIG e h) envs st) = Some 1" by (rule conjunct1)
  have "nat (MAX_RECONNECT_ATTEMPTS (CONFIG e h) - reconnectAttempts st) + 1 = 21"
    using a by (simp add: CONFIG_constants)
  with x show "cycles (CONFIG e h) envs st = cycles (CONFIG e h) (take 21 envs) st"
    by (simp only:)
next
  assume "\<not> alive st"
  then show "fire cfg env st = st" by (simp add: fire_def)
next
  assume "\<not> alive st"
  then show "step cfg (st, ts) ev = None" by (simp add: step_def Let_def elapse_def alive_def)
qed

text \<open>
  Claim C6 as stated fails: after 20 failed cycles in a row the process is still running with
  the counter at 20, and the next cycle posts a registration request.
\<close>

theorem still_running_after_twenty_failures_counterexample:
  "all_failed example_config (replicate 20 collector_down) (initial ''host-1'' 0) \<and>
   alive (cycles example_config (replicate 20 collector_down) (initial ''host-1'' 0)) \<and>
   reconnectAttempts (cycles example_config (replicate 20 collector_down) (initial ''host-1'' 0)) = 20 \<and>
   requests (fire example_config collector_down
               (cycles example_config (replicate 20 collector_down) (initial ''host-1'' 0)))
     = requests (cycles example_config (replicate 20 collector_down) (initial ''host-1'' 0))
         @ [register_request example_config (initial ''host-1'' 0)]"
proof -
  let ?s = "cycles example_config (replicate 20 collector_down) (initial ''host-1'' 0)"
  have al: "alive ?s" and ra: "reconnectAttempts ?s = 20" and nr: "\<not> isRegistered ?s"
    using down_run [of 20 "''host-1''" 0] by simp_all
  have "\<not> fst (registerNode example_config (register_reply collector_down) ?s)"
    by (simp add: registerNode_success collector_down_rejected)
  from sendReport_registration_failed [OF nr this] al
  have "requests (fire example_config collector_down ?s)
          = requests ?s @ [register_request example_config ?s]"
    by (simp add: fire_def scheduleReconnect_frame issue_def elapse_def)
  moreover have "register_request example_config ?s = register_request example_config (initial ''host-1'' 0)"
    by (rule register_request_cong) (rule cycles_os_hostname)
  ultimately show ?thesis using al ra down_all_failed by simp
qed

theorem exit_follows_budget_witness:
  "alive (cycles example_config (replicate 20 collector_down) (initial ''host-1'' 0)) \<and>
   reconnectAttempts (cycles example_config (replicate 20 collector_down) (initial ''host-1'' 0)) = 20 \<and>
   exit_code (cycles example_config (replicate 21 collector_down) (initial ''host-1'' 0)) = Some 1 \<and>
   fire example_config all_well
       (cycles example_config (replicate 21 collector_down) (initial ''host-1'' 0))
     = cycles example_config (replicate 21 collector_down) (initial ''host-1'' 0)"
proof -
  note eb = exit_follows_budget [where e = example_env and h = "''host-1''",
      folded example_config_def]
  let ?i = "initial ''host-1'' 0"
  have a: "alive (cycles example_config (replicate 20 collector_down) ?i) \<and>
           reconnectAttempts (cycles example_config (replicate 20 collector_down) ?i) = 20"
    using eb [of ?i "replicate 20 collector_down"] down_all_failed [of example_config 20 "''host-1''" 0]
    by (simp add: initial_fields)
  have b: "exit_code (cycles example_config (replicate 21 collector_down) ?i) = Some 1"
    using eb [of ?i "replicate 21 collector_down"] down_all_failed [of example_config 21 "''host-1''" 0]
    by (simp add: initial_fields)
  then have "\<not> alive (cycles example_config (replicate 21 collector_down) ?i)"
    by (simp add: alive_def)
  with eb [of "cycles example_config (replicate 21 collector_down) ?i" "[]" example_config all_well]
  have c: "fire example_config all_well (cycles example_config (replicate 21 collector_down) ?i)
     = cycles example_config (replicate 21 collector_down) ?i"
    by simp
  from a b c show ?thesis by simp
qed

subsection \<open>A cycle that stops at collection\<close>

lemma null_snapshot_branches:
  "fst (stats_reply env) = None \<longrightarrow>
     (isRegistered st \<longrightarrow> sendReport cfg env st = elapse (snd (stats_reply env)) st) \<and>
     (\<not> isRegistered st \<and> fst (registerNode cfg (register_reply env) st) \<longrightarrow>
        sendReport cfg env st =
          elapse (snd (stats_reply env)) (snd (registerNode cfg (register_reply env) st)) \<and>
        reconnectAttempts (sendReport cfg env st) = 0) \<and>
     (isRegistered st \<or> fst (registerNode cfg (register_reply env) st) \<longrightarrow>
        isRegistered (sendReport cfg env st) \<and>
        (0 \<le> reconnectAttempts st \<longrightarrow> reconnectAttempts (sendReport cfg env st) \<le> reconnectAttempts st) \<and>
        timeouts (sendReport cfg env st) = timeouts st \<and>
        exit_code (sendReport cfg env st) = exit_code st \<and>
        requests (sendReport cfg env st) =
          requests st @ (if isRegistered st then [] else [register_request cfg st])) \<and>
     resume cfg AwaitStats (Stats (fst (stats_reply env))) st = Some (Finished, st)"
proof (intro impI conjI)
  assume n: "fst (stats_reply env) = None"
  show "resume cfg AwaitStats (Stats (fst (stats_reply env))) st = Some (Finished, st)"
    by (simp add: n)
  {
    assume "isRegistered st"
    then show "sendReport cfg env st = elapse (snd (stats_reply env)) st"
      by (simp add: sendReport_registered collect_and_send_null n)
  }
  {
    assume a: "\<not> isRegistered st \<and> fst (registerNode cfg (register_reply env) st)"
    then show e: "sendReport cfg env st =
          elapse (snd (stats_reply env)) (snd (registerNode cfg (register_reply env) st))"
      by (simp add: sendReport_registration_succeeded collect_and_send_null n)
    show "reconnectAttempts (sendReport cfg env st) = 0"
      using a by (simp add: e registerNode_succeeded elapse_def)
  }
  {
    assume a: "isRegistered st \<or> fst (registerNode cfg (register_reply env) st)"
    have e: "sendReport cfg env st =
      (if isRegistered st then elapse (snd (stats_reply env)) st
       else elapse (snd (stats_reply env))
             ((elapse (snd (register_reply env)) (issue (register_request cfg st) st))
                \<lparr>isRegistered := True, reconnectAttempts := 0\<rparr>))"
      using a
      by (auto simp: sendReport_registered sendReport_registration_succeeded collect_and_send_null n
          registerNode_succeeded)
    show "isRegistered (sendReport cfg env st)" by (simp add: e elapse_def)
    show "timeouts (sendReport cfg env st) = timeouts st" by (simp add: e elapse_def issue_def)
    show "exit_code (sendReport cfg env st) = exit_code st" by (simp add: e elapse_def issue_def)
    show "requests (sendReport cfg env st) =
          requests st @ (if isRegistered st then [] else [register_request cfg st])"
      by (simp add: e elapse_def issue_def)
    {
      assume "0 \<le> reconnectAttempts st"
      then show "reconnectAttempts (sendReport cfg env st) \<le> reconnectAttempts st"
        by (simp add: e elapse_def issue_def)
    }
  }
qed

subsection \<open>The answer to the report POST\<close>

text \<open>
  Claim C1 at the input where the collector answers the report POST with status 200 and the body
  \<^verbatim>\<open>{success: false, error: "Invalid API key"}\<close>: the cycle ends as after a success, the agent
  registered, the counter at 0, no retry timer set.
\<close>

theorem refused_report_counts_as_sent:
  "isRegistered (sendReport example_config report_refused
     (initial ''host-1'' 0)) \<and>
   reconnectAttempts (sendReport example_config report_refused
     (initial ''host-1'' 0)) = 0 \<and>
   timeouts (sendReport example_config report_refused
     (initial ''host-1'' 0)) = [] \<and>
   exit_code (sendReport example_config report_refused
     (initial ''host-1'' 0)) = None"
proof -
  let ?env = report_refused
  have "fst (registerNode example_config (register_reply ?env) (initial ''host-1'' 0))"
    by (simp add: registerNode_success report_refused_def all_well_def accepted_def validateStatus_def)
  then have a: "isRegistered (initial ''host-1'' 0) \<or>
      fst (registerNode example_config (register_reply ?env) (initial ''host-1'' 0))" ..
  have b: "fst (stats_reply ?env) \<noteq> None" by (simp add: report_refused_def all_well_def)
  have c: "axios_result (fst (report_reply ?env)) \<noteq> None"
    by (simp add: report_refused_def refused_def validateStatus_def)
  from sendReport_sent [OF a b c] show ?thesis
    by (simp add: initial_fields) (simp add: initial_def)
qed


section \<open>The event loop\<close>

subsection \<open>One task alone is the cycle\<close>

lemma settle_Finished: "settle cfg env (Finished, st) = (Finished, st)"
  by (simp add: settle_def)

lemma settle_AwaitReport:
  "settle cfg env (AwaitReport, st) =
     (Finished,
      case axios_result (fst (report_reply env)) of
        Some res \<Rightarrow> (elapse (snd (report_reply env)) st)\<lparr>reconnectAttempts := 0\<rparr>
      | None \<Rightarrow> scheduleReconnect cfg ((elapse (snd (report_reply env)) st)\<lparr>isRegistered := False\<rparr>))"
  by (simp add: settle_def split: option.splits)

lemma settle_AwaitLatency:
  "settle cfg env (AwaitLatency stats start, st) =
     (AwaitReport,
      issue (report_request cfg
               (case axios_result (fst (ping_reply env)) of
                  Some res \<Rightarrow> now (elapse (snd (ping_reply env)) st) - start
                | None \<Rightarrow> 9999) stats)
            (elapse (snd (ping_reply env)) st))"
  by (simp add: settle_def Let_def)

lemma settle_AwaitStats:
  "settle cfg env (AwaitStats, st) =
     (case fst (stats_reply env) of
        None \<Rightarrow> (Finished, elapse (snd (stats_reply env)) st)
      | Some stats \<Rightarrow>
          if \<not> LATENCY_TEST cfg
          then (AwaitReport, issue (report_request cfg 0 stats) (elapse (snd (stats_reply env)) st))
          else (AwaitLatency stats (now (elapse (snd (stats_reply env)) st)),
                issue (ping_request cfg) (elapse (snd (stats_reply env)) st)))"
  by (simp add: settle_def split: option.splits)

lemma settle_AwaitRegister:
  "settle cfg env (AwaitRegister, st) =
     (if fst (registerNode cfg (register_reply env) st')
      then (AwaitStats, (elapse (snd (register_reply env)) st)\<lparr>isRegistered := True, reconnectAttempts := 0\<rparr>)
      else (Finished, scheduleReconnect cfg (elapse (snd (register_reply env)) st)))"
  by (auto simp: settle_def registerNode_success split: option.splits)

lemma elapse_issue: "elapse ms (issue rq st) = issue rq (elapse ms st)"
  by (simp add: elapse_def issue_def)

lemma collect_alone:
  "settle cfg env (settle cfg env (settle cfg env (AwaitStats, st)))
     = (Finished, collect_and_send cfg env st)"
proof (cases "fst (stats_reply env)")
  case None
  then show ?thesis
    by (simp add: settle_AwaitStats settle_Finished collect_and_send_null)
next
  case (Some stats)
  show ?thesis
  proof (cases "LATENCY_TEST cfg")
    case False
    with Some show ?thesis
      by (simp add: settle_AwaitStats settle_AwaitReport settle_Finished collect_and_send_def
          measureLatency_def Let_def elapse_issue split: option.splits)
  next
    case True
    with Some show ?thesis
      by (simp add: settle_AwaitStats settle_AwaitLatency settle_AwaitReport collect_and_send_def
          measureLatency_def Let_def elapse_issue split: option.splits)
  qed
qed

lemma alone_sendReport: "alone cfg env st = (Finished, sendReport cfg env st)"
proof (cases "isRegistered st")
  case True
  then show ?thesis
    by (simp add: alone_def begin_cycle_def collect_alone settle_Finished sendReport_registered)
next
  case False
  show ?thesis
  proof (cases "fst (registerNode cfg (register_reply env) st)")
    case t: True
    have "(elapse (snd (register_reply env)) (issue (register_request cfg st) st))
            \<lparr>isRegistered := True, reconnectAttempts := 0\<rparr>
          = snd (registerNode cfg (register_reply env) st)"
      by (simp add: registerNode_succeeded [OF t])
    with False t show ?thesis
      by (simp add: alone_def begin_cycle_def settle_AwaitRegister [where st' = st] collect_alone
          sendReport_registration_succeeded)
  next
    case f: False
    with False show ?thesis
      by (simp add: alone_def begin_cycle_def settle_AwaitRegister [where st' = st] settle_Finished
          sendReport_registration_failed)
  qed
qed

subsection \<open>The counter stays in its range\<close>

lemma resume_bound:
  assumes "resume cfg t r st = Some (t', st')"
    "0 \<le> reconnectAttempts st" "reconnectAttempts st \<le> MAX_RECONNECT_ATTEMPTS cfg"
  shows "0 \<le> reconnectAttempts st' \<and> reconnectAttempts st' \<le> MAX_RECONNECT_ATTEMPTS cfg"
proof -
  have m: "0 \<le> MAX_RECONNECT_ATTEMPTS cfg" using assms(2,3) by simp
  note sb = scheduleReconnect_bound [of _ cfg]
  from assms m show ?thesis
    by (cases "(cfg, t, r, st)" rule: resume.cases)
       (auto simp: issue_def Let_def sb split: option.splits if_splits)
qed

lemma begin_cycle_counter:
  "reconnectAttempts (snd (begin_cycle cfg st)) = reconnectAttempts st"
  by (simp add: begin_cycle_def issue_def)

lemma step_bound:
  assumes "step cfg sys ev = Some sys'"
    "0 \<le> reconnectAttempts (fst sys)" "reconnectAttempts (fst sys) \<le> MAX_RECONNECT_ATTEMPTS cfg"
  shows "0 \<le> reconnectAttempts (fst sys') \<and> reconnectAttempts (fst sys') \<le> MAX_RECONNECT_ATTEMPTS cfg"
proof (cases "snd ev")
  case IntervalTick
  with assms show ?thesis
    by (auto simp: step_def Let_def spawn_def case_prod_beta begin_cycle_counter elapse_def
        split: if_splits)
next
  case RetryTimer
  with assms show ?thesis
    by (auto simp: step_def Let_def spawn_def case_prod_beta begin_cycle_counter elapse_def
        split: if_splits)
next
  case (Settle i r)
  with assms(1) obtain t st1 where
    r: "resume cfg (snd sys ! i) r (elapse (fst ev) (fst sys)) = Some (t, st1)"
    and s: "sys' = (after_first cfg i t st1, (snd sys)[i := t])"
    by (auto simp: step_def Let_def split: if_splits option.splits)
  have "0 \<le> reconnectAttempts st1 \<and> reconnectAttempts st1 \<le> MAX_RECONNECT_ATTEMPTS cfg"
    using assms(2,3) by (intro resume_bound [OF r]) (simp_all add: elapse_def)
  then show ?thesis by (simp add: s after_first_def)
qed

lemma run_bound:
  assumes "run cfg evs sys = Some sys'"
    "0 \<le> reconnectAttempts (fst sys)" "reconnectAttempts (fst sys) \<le> MAX_RECONNECT_ATTEMPTS cfg"
  shows "0 \<le> reconnectAttempts (fst sys') \<and> reconnectAttempts (fst sys') \<le> MAX_RECONNECT_ATTEMPTS cfg"
  using assms
proof (induction evs arbitrary: sys)
  case Nil
  then show ?case by simp
next
  case (Cons ev evs)
  from Cons.prems(1) obtain sys1 where s: "step cfg sys ev = Some sys1"
    and r: "run cfg evs sys1 = Some sys'"
    by (auto split: option.splits)
  from step_bound [OF s Cons.prems(2,3)] show ?case
    by (intro Cons.IH [OF r]) simp_all
qed

lemma boot_counter: "reconnectAttempts (fst (boot cfg h t)) = 0"
  by (simp add: boot_def spawn_def case_prod_beta begin_cycle_counter initial_fields)

lemma sendReport_bound:
  assumes "0 \<le> reconnectAttempts st" "reconnectAttempts st \<le> MAX_RECONNECT_ATTEMPTS cfg"
  shows "0 \<le> reconnectAttempts (sendReport cfg env st) \<and>
         reconnectAttempts (sendReport cfg env st) \<le> MAX_RECONNECT_ATTEMPTS cfg"
proof -
  have st: "\<And>p. 0 \<le> reconnectAttempts (snd p) \<and> reconnectAttempts (snd p) \<le> MAX_RECONNECT_ATTEMPTS cfg
      \<Longrightarrow> 0 \<le> reconnectAttempts (snd (settle cfg env p)) \<and>
          reconnectAttempts (snd (settle cfg env p)) \<le> MAX_RECONNECT_ATTEMPTS cfg"
  proof -
    fix p :: "task \<times> agent"
    assume a: "0 \<le> reconnectAttempts (snd p) \<and> reconnectAttempts (snd p) \<le> MAX_RECONNECT_ATTEMPTS cfg"
    show "0 \<le> reconnectAttempts (snd (settle cfg env p)) \<and>
          reconnectAttempts (snd (settle cfg env p)) \<le> MAX_RECONNECT_ATTEMPTS cfg"
    proof (cases "\<exists>q. settle cfg env p = q \<and> q = p")
      case True
      then show ?thesis using a by simp
    next
      case False
      then obtain rp ms t' st' where "resume cfg (fst p) rp (elapse ms (snd p)) = Some (t', st')"
        and "settle cfg env p = (t', st')"
        by (auto simp: settle_def Let_def split: option.splits)
      from resume_bound [OF this(1)] a this(2) show ?thesis by (simp add: elapse_def)
    qed
  qed
  have "sendReport cfg env st = snd (alone cfg env st)" by (simp add: alone_sendReport)
  also have "0 \<le> reconnectAttempts \<dots> \<and> reconnectAttempts \<dots> \<le> MAX_RECONNECT_ATTEMPTS cfg"
    unfolding alone_def using assms by (intro st) (simp add: begin_cycle_counter)
  finally show ?thesis .
qed

lemma cycles_bound:
  assumes "0 \<le> reconnectAttempts st" "reconnectAttempts st \<le> MAX_RECONNECT_ATTEMPTS cfg"
  shows "0 \<le> reconnectAttempts (cycles cfg envs st) \<and>
         reconnectAttempts (cycles cfg envs st) \<le> MAX_RECONNECT_ATTEMPTS cfg"
  using assms
proof (induction envs arbitrary: st)
  case Nil
  then show ?case by simp
next
  case (Cons env envs)
  have "0 \<le> reconnectAttempts (fire cfg env st) \<and>
        reconnectAttempts (fire cfg env st) \<le> MAX_RECONNECT_ATTEMPTS cfg"
    using Cons.prems sendReport_bound [OF Cons.prems] by (simp add: fire_def)
  then show ?case by (simp add: Cons.IH)
qed

lemmas loop_defs = boot_def spawn_def step_def begin_cycle_def initial_def elapse_def issue_def
  alive_def scheduleReconnect_def after_first_def example_constants Let_def

text \<open>
  Claim C10. In every state that the event loop reaches from startup, whatever the order of
  timers and answers, and after every sequence of cycles run one after the other, the counter
  is between 0 and 20; at 20 or above \<^verbatim>\<open>scheduleReconnect\<close> only exits.
\<close>

theorem reconnectAttempts_in_range:
  "(run (CONFIG e h) evs (boot (CONFIG e h) h t0) = Some sys \<longrightarrow>
      0 \<le> reconnectAttempts (fst sys) \<and> reconnectAttempts (fst sys) \<le> 20) \<and>
   0 \<le> reconnectAttempts (cycles (CONFIG e h) envs (initial h t0)) \<and>
   reconnectAttempts (cycles (CONFIG e h) envs (initial h t0)) \<le> 20 \<and>
   (reconnectAttempts st \<ge> 20 \<longrightarrow>
      scheduleReconnect (CONFIG e h) st = st\<lparr>exit_code := Some 1\<rparr>)"
proof -
  have r: "run (CONFIG e h) evs (boot (CONFIG e h) h t0) = Some sys \<longrightarrow>
      0 \<le> reconnectAttempts (fst sys) \<and> reconnectAttempts (fst sys) \<le> 20"
  proof
    assume "run (CONFIG e h) evs (boot (CONFIG e h) h t0) = Some sys"
    from run_bound [OF this] show "0 \<le> reconnectAttempts (fst sys) \<and> reconnectAttempts (fst sys) \<le> 20"
      by (simp add: boot_counter CONFIG_constants)
  qed
  have c: "0 \<le> reconnectAttempts (cycles (CONFIG e h) envs (initial h t0)) \<and>
     reconnectAttempts (cycles (CONFIG e h) envs (initial h t0)) \<le> 20"
    using cycles_bound [of "initial h t0" "CONFIG e h" envs]
    by (simp add: initial_fields CONFIG_constants)
  have x: "reconnectAttempts st \<ge> 20 \<longrightarrow>
      scheduleReconnect (CONFIG e h) st = st\<lparr>exit_code := Some 1\<rparr>"
    by (simp add: scheduleReconnect_exit CONFIG_constants)
  from r c x show ?thesis by simp
qed

theorem reconnectAttempts_in_range_witness:
  "run example_config overlap_trace (boot example_config ''host-1'' 0) \<noteq> None \<and>
   (\<exists>sys. run example_config overlap_trace (boot example_config ''host-1'' 0) = Some sys \<and>
          0 \<le> reconnectAttempts (fst sys) \<and> reconnectAttempts (fst sys) \<le> 20) \<and>
   reconnectAttempts (cycles example_config (replicate 20 collector_down) (initial ''host-1'' 0)) = 20 \<and>
   scheduleReconnect example_config
       (cycles example_config (replicate 20 collector_down) (initial ''host-1'' 0))
     = (cycles example_config (replicate 20 collector_down) (initial ''host-1'' 0))
         \<lparr>exit_code := Some 1\<rparr>"
proof -
  note ir = reconnectAttempts_in_range [where e = example_env and h = "''host-1''",
      folded example_config_def]
  let ?s = "cycles example_config (replicate 20 collector_down) (initial ''host-1'' 0)"
  have "map_option (reconnectAttempts \<circ> fst)
     (run example_config overlap_trace (boot example_config ''host-1'' 0)) = Some 1"
    by (simp add: overlap_trace_def loop_defs)
  then obtain sys where s: "run example_config overlap_trace (boot example_config ''host-1'' 0) = Some sys"
    by blast
  with ir [of overlap_trace 0 sys]
  have a: "0 \<le> reconnectAttempts (fst sys) \<and> reconnectAttempts (fst sys) \<le> 20" by simp
  have b: "reconnectAttempts ?s = 20" using down_run(2) [of 20 "''host-1''" 0] by simp
  with ir [of "[]" 0 _ "[]" ?s]
  have c: "scheduleReconnect example_config ?s = ?s\<lparr>exit_code := Some 1\<rparr>" by simp
  from s a b c show ?thesis by auto
qed

subsection \<open>Calls that overlap\<close>

lemma begin_cycle_waits: "fst (begin_cycle cfg st) \<noteq> Finished"
  by (simp add: begin_cycle_def)

lemma spawn_appends:
  "spawn cfg (st, ts) = (snd (begin_cycle cfg st), ts @ [fst (begin_cycle cfg st)])"
  by (simp add: spawn_def case_prod_beta)

lemma resume_failed:
  "request_failed t r \<Longrightarrow>
   resume cfg t (Http r) st = Some (Finished, scheduleReconnect cfg (after_failure t st))"
  by (cases t) (auto simp: request_failed_def after_failure_def split: option.splits)

lemma after_first_frame:
  "isRegistered (after_first cfg i t st) = isRegistered st"
  "reconnectAttempts (after_first cfg i t st) = reconnectAttempts st"
  "exit_code (after_first cfg i t st) = exit_code st"
  "timeouts (after_first cfg i t st) = timeouts st"
  "requests (after_first cfg i t st) = requests st"
  "alive (after_first cfg i t st) = alive st"
  by (simp_all add: after_first_def alive_def)

lemma step_failed:
  assumes "alive st" "i < length ts" "request_failed (ts ! i) r"
  shows "step cfg (st, ts) (dt, Settle i (Http r)) =
           Some (after_first cfg i Finished
                   (scheduleReconnect cfg (after_failure (ts ! i) (elapse dt st))),
                 ts[i := Finished])"
  using assms by (simp add: step_def Let_def alive_def elapse_def resume_failed)

lemma after_failure_frame:
  "reconnectAttempts (after_failure t st) = reconnectAttempts st"
  "exit_code (after_failure t st) = exit_code st"
  "timeouts (after_failure t st) = timeouts st"
  "requests (after_failure t st) = requests st"
  by (simp_all add: after_failure_def)

lemma step_failed_below:
  assumes "alive st" "i < length ts" "request_failed (ts ! i) r"
    "reconnectAttempts st < MAX_RECONNECT_ATTEMPTS cfg"
  shows "\<exists>st'. step cfg (st, ts) (dt, Settle i (Http r)) = Some (st', ts[i := Finished]) \<and>
           alive st' \<and> reconnectAttempts st' = reconnectAttempts st + 1 \<and>
           timeouts st' =
             timeouts st @ [RECONNECT_BASE_DELAY cfg * (1.5 powi reconnectAttempts st)]"
proof -
  let ?m = "after_failure (ts ! i) (elapse dt st)"
  have m: "reconnectAttempts ?m = reconnectAttempts st" "exit_code ?m = exit_code st"
    "timeouts ?m = timeouts st"
    by (simp_all add: after_failure_frame elapse_def)
  have "reconnectAttempts ?m < MAX_RECONNECT_ATTEMPTS cfg" using assms(4) m by simp
  note sr = scheduleReconnect_retry [OF this]
  show ?thesis
    using assms(1) m
    by (simp add: step_failed [OF assms(1-3)] after_first_frame sr alive_def)
qed

lemma step_failed_at_budget:
  assumes "alive st" "i < length ts" "request_failed (ts ! i) r"
    "reconnectAttempts st \<ge> MAX_RECONNECT_ATTEMPTS cfg"
  shows "\<exists>st'. step cfg (st, ts) (dt, Settle i (Http r)) = Some (st', ts[i := Finished]) \<and>
           exit_code st' = Some 1 \<and> reconnectAttempts st' = reconnectAttempts st \<and>
           timeouts st' = timeouts st"
proof -
  let ?m = "after_failure (ts ! i) (elapse dt st)"
  have m: "reconnectAttempts ?m = reconnectAttempts st" "timeouts ?m = timeouts st"
    by (simp_all add: after_failure_frame elapse_def)
  have "reconnectAttempts ?m \<ge> MAX_RECONNECT_ATTEMPTS cfg" using assms(4) m by simp
  note sr = scheduleReconnect_exit [OF this]
  show ?thesis
    using m by (simp add: step_failed [OF assms(1-3)] after_first_frame sr)
qed

lemma resume_increment:
  assumes "resume cfg t r st = Some (t', st')" "0 \<le> reconnectAttempts st"
  shows "reconnectAttempts st' \<le> reconnectAttempts st + 1 \<and>
         (reconnectAttempts st' = reconnectAttempts st + 1 \<longrightarrow>
            (\<exists>rp. r = Http rp \<and> request_failed t rp) \<and> t' = Finished \<and>
            reconnectAttempts st < MAX_RECONNECT_ATTEMPTS cfg)"
  using assms
  by (cases "(cfg, t, r, st)" rule: resume.cases)
     (auto simp: issue_def Let_def scheduleReconnect_def request_failed_def
       split: option.splits if_splits)

lemma two_failures:
  assumes "alive st" "i < length ts" "j < length ts" "i \<noteq> j"
    "request_failed (ts ! i) r" "request_failed (ts ! j) r'"
    "reconnectAttempts st + 1 < MAX_RECONNECT_ATTEMPTS cfg"
  shows "\<exists>st'. run cfg [(dt, Settle i (Http r)), (dt', Settle j (Http r'))] (st, ts)
                 = Some (st', ts[i := Finished, j := Finished]) \<and>
               reconnectAttempts st' = reconnectAttempts st + 2"
proof -
  have lt: "reconnectAttempts st < MAX_RECONNECT_ATTEMPTS cfg" using assms(7) by simp
  from step_failed_below [OF assms(1,2,5) lt, of dt] obtain s1 where
    s1: "step cfg (st, ts) (dt, Settle i (Http r)) = Some (s1, ts[i := Finished])"
    and a1: "alive s1" and r1: "reconnectAttempts s1 = reconnectAttempts st + 1"
    by blast
  have j: "j < length (ts[i := Finished])" using assms(3) by simp
  have f: "request_failed (ts[i := Finished] ! j) r'" using assms(4,6) by simp
  have lt1: "reconnectAttempts s1 < MAX_RECONNECT_ATTEMPTS cfg" using assms(7) r1 by simp
  from step_failed_below [OF a1 j f lt1, of dt'] obtain s2 where
    s2: "step cfg (s1, ts[i := Finished]) (dt', Settle j (Http r'))
           = Some (s2, ts[i := Finished, j := Finished])"
    and r2: "reconnectAttempts s2 = reconnectAttempts s1 + 1"
    by blast
  have "run cfg [(dt, Settle i (Http r)), (dt', Settle j (Http r'))] (st, ts)
          = Some (s2, ts[i := Finished, j := Finished])"
    by (simp add: s1 s2)
  moreover have "reconnectAttempts s2 = reconnectAttempts st + 2" using r1 r2 by simp
  ultimately show ?thesis by blast
qed

text \<open>
  Claim C2, as the code has it. A timer that fires in a running process always starts a new
  call of \<^verbatim>\<open>sendReport\<close>, whatever the tasks in flight: the new task is added and waits
  for its first answer. The counter rises in exactly one kind of turn of the event loop: a
  waiting task gets the answer that its own registration or report request failed while the
  counter is below the budget; then the task returns, the counter rises by one and one retry
  timer is set. At the budget the same turn exits the process and leaves the counter. No other
  turn raises the counter. So when two tasks in flight both get their failure, and the counter
  was at least two below the budget, it has risen by two.
\<close>

theorem invocations_overlap:
  "(alive st \<and> interval st \<noteq> None \<longrightarrow>
      (\<exists>t st'. step cfg (st, ts) (dt, IntervalTick) = Some (st', ts @ [t]) \<and> t \<noteq> Finished)) \<and>
   (alive st \<and> fired st < length (timeouts st) \<longrightarrow>
      (\<exists>t st'. step cfg (st, ts) (dt, RetryTimer) = Some (st', ts @ [t]) \<and> t \<noteq> Finished)) \<and>
   (alive st \<and> i < length ts \<and> request_failed (ts ! i) r \<and>
    reconnectAttempts st < MAX_RECONNECT_ATTEMPTS cfg \<longrightarrow>
      (\<exists>st'. step cfg (st, ts) (dt, Settle i (Http r)) = Some (st', ts[i := Finished]) \<and>
             alive st' \<and> reconnectAttempts st' = reconnectAttempts st + 1 \<and>
             timeouts st' =
               timeouts st @ [RECONNECT_BASE_DELAY cfg * (1.5 powi reconnectAttempts st)])) \<and>
   (alive st \<and> i < length ts \<and> request_failed (ts ! i) r \<and>
    reconnectAttempts st \<ge> MAX_RECONNECT_ATTEMPTS cfg \<longrightarrow>
      (\<exists>st'. step cfg (st, ts) (dt, Settle i (Http r)) = Some (st', ts[i := Finished]) \<and>
             exit_code st' = Some 1 \<and> reconnectAttempts st' = reconnectAttempts st \<and>
             timeouts st' = timeouts st)) \<and>
   (step cfg (st, ts) ev = Some (st', ts') \<and> 0 \<le> reconnectAttempts st \<longrightarrow>
      reconnectAttempts st' \<le> reconnectAttempts st + 1 \<and>
      (reconnectAttempts st' = reconnectAttempts st + 1 \<longrightarrow>
         (\<exists>k rp. snd ev = Settle k (Http rp) \<and> k < length ts \<and> request_failed (ts ! k) rp \<and>
                 ts' = ts[k := Finished] \<and>
                 reconnectAttempts st < MAX_RECONNECT_ATTEMPTS cfg))) \<and>
   (alive st \<and> i < length ts \<and> j < length ts \<and> i \<noteq> j \<and>
    request_failed (ts ! i) r \<and> request_failed (ts ! j) r' \<and>
    reconnectAttempts st + 1 < MAX_RECONNECT_ATTEMPTS cfg \<longrightarrow>
      (\<exists>st'. run cfg [(dt, Settle i (Http r)), (dt', Settle j (Http r'))] (st, ts)
                = Some (st', ts[i := Finished, j := Finished]) \<and>
             reconnectAttempts st' = reconnectAttempts st + 2))"
proof -
  have tick: "alive st \<and> interval st \<noteq> None \<longrightarrow>
      (\<exists>t st'. step cfg (st, ts) (dt, IntervalTick) = Some (st', ts @ [t]) \<and> t \<noteq> Finished)"
    by (simp add: step_def Let_def spawn_appends begin_cycle_waits alive_def elapse_def)
  have retry: "alive st \<and> fired st < length (timeouts st) \<longrightarrow>
      (\<exists>t st'. step cfg (st, ts) (dt, RetryTimer) = Some (st', ts @ [t]) \<and> t \<noteq> Finished)"
    by (simp add: step_def Let_def spawn_appends begin_cycle_waits alive_def elapse_def)
  have below: "alive st \<and> i < length ts \<and> request_failed (ts ! i) r \<and>
    reconnectAttempts st < MAX_RECONNECT_ATTEMPTS cfg \<longrightarrow>
      (\<exists>st'. step cfg (st, ts) (dt, Settle i (Http r)) = Some (st', ts[i := Finished]) \<and>
             alive st' \<and> reconnectAttempts st' = reconnectAttempts st + 1 \<and>
             timeouts st' =
               timeouts st @ [RECONNECT_BASE_DELAY cfg * (1.5 powi reconnectAttempts st)])"
    using step_failed_below [of st i ts r cfg dt] by blast
  have budget: "alive st \<and> i < length ts \<and> request_failed (ts ! i) r \<and>
    reconnectAttempts st \<ge> MAX_RECONNECT_ATTEMPTS cfg \<longrightarrow>
      (\<exists>st'. step cfg (st, ts) (dt, Settle i (Http r)) = Some (st', ts[i := Finished]) \<and>
             exit_code st' = Some 1 \<and> reconnectAttempts st' = reconnectAttempts st \<and>
             timeouts st' = timeouts st)"
    using step_failed_at_budget [of st i ts r cfg dt] by blast
  have count: "step cfg (st, ts) ev = Some (st', ts') \<and> 0 \<le> reconnectAttempts st \<longrightarrow>
      reconnectAttempts st' \<le> reconnectAttempts st + 1 \<and>
      (reconnectAttempts st' = reconnectAttempts st + 1 \<longrightarrow>
         (\<exists>k rp. snd ev = Settle k (Http rp) \<and> k < length ts \<and> request_failed (ts ! k) rp \<and>
                 ts' = ts[k := Finished] \<and>
                 reconnectAttempts st < MAX_RECONNECT_ATTEMPTS cfg))"
  proof
    assume a: "step cfg (st, ts) ev = Some (st', ts') \<and> 0 \<le> reconnectAttempts st"
    show "reconnectAttempts st' \<le> reconnectAttempts st + 1 \<and>
      (reconnectAttempts st' = reconnectAttempts st + 1 \<longrightarrow>
         (\<exists>k rp. snd ev = Settle k (Http rp) \<and> k < length ts \<and> request_failed (ts ! k) rp \<and>
                 ts' = ts[k := Finished] \<and>
                 reconnectAttempts st < MAX_RECONNECT_ATTEMPTS cfg))"
    proof (cases "snd ev")
      case IntervalTick
      with a show ?thesis
        by (auto simp: step_def Let_def spawn_appends begin_cycle_counter elapse_def split: if_splits)
    next
      case RetryTimer
      with a show ?thesis
        by (auto simp: step_def Let_def spawn_appends begin_cycle_counter elapse_def split: if_splits)
    next
      case (Settle k rr)
      with a obtain t st1 where
        r: "resume cfg (ts ! k) rr (elapse (fst ev) st) = Some (t, st1)"
        and s: "st' = after_first cfg k t st1" "ts' = ts[k := t]" and k: "k < length ts"
        by (auto simp: step_def Let_def split: if_splits option.splits)
      have "0 \<le> reconnectAttempts (elapse (fst ev) st)" using a by (simp add: elapse_def)
      from resume_increment [OF r this] Settle s k show ?thesis
        by (auto simp: after_first_frame elapse_def)
    qed
  qed
  have twice: "alive st \<and> i < length ts \<and> j < length ts \<and> i \<noteq> j \<and>
    request_failed (ts ! i) r \<and> request_failed (ts ! j) r' \<and>
    reconnectAttempts st + 1 < MAX_RECONNECT_ATTEMPTS cfg \<longrightarrow>
      (\<exists>st'. run cfg [(dt, Settle i (Http r)), (dt', Settle j (Http r'))] (st, ts)
                = Some (st', ts[i := Finished, j := Finished]) \<and>
             reconnectAttempts st' = reconnectAttempts st + 2)"
    using two_failures [of st i ts j r r' cfg dt dt'] by blast
  show ?thesis
    by (rule conjI [OF tick conjI [OF retry conjI [OF below conjI [OF budget conjI [OF count twice]]]]])
qed

text \<open>
  Claim C2 as stated fails: with the collector silent, the second and the third call of
  \<^verbatim>\<open>sendReport\<close> are in flight together, each with its own registration POST, and when
  both have failed the counter has gone from 1 to 3.
\<close>

theorem two_invocations_in_flight_counterexample:
  "map_option (in_flight \<circ> snd)
     (run example_config overlap_trace (boot example_config ''host-1'' 0)) = Some 2 \<and>
   map_option (reconnectAttempts \<circ> fst)
     (run example_config overlap_trace (boot example_config ''host-1'' 0)) = Some 1 \<and>
   map_option (reconnectAttempts \<circ> fst)
     (run example_config
        (overlap_trace @ [(7000, Settle 1 (Http NoResponse)), (3000, Settle 2 (Http NoResponse))])
        (boot example_config ''host-1'' 0)) = Some 3"
  by (simp add: overlap_trace_def in_flight_def loop_defs)

lemma first_failed_fields:
  "alive first_failed" "interval first_failed \<noteq> None"
  "fired first_failed < length (timeouts first_failed)"
  "reconnectAttempts first_failed = 1" "\<not> isRegistered first_failed"
  by (simp_all add: first_failed_def loop_defs)

theorem invocations_overlap_witness:
  "alive first_failed \<and> interval first_failed \<noteq> None \<and>
   fired first_failed < length (timeouts first_failed) \<and>
   reconnectAttempts first_failed = 1 \<and>
   request_failed AwaitRegister NoResponse \<and>
   (\<exists>t st'. step example_config (first_failed, [Finished, AwaitRegister]) (1000, IntervalTick)
              = Some (st', [Finished, AwaitRegister] @ [t]) \<and> t \<noteq> Finished) \<and>
   (\<exists>t st'. step example_config (first_failed, [Finished, AwaitRegister]) (2000, RetryTimer)
              = Some (st', [Finished, AwaitRegister] @ [t]) \<and> t \<noteq> Finished) \<and>
   (\<exists>st'. step example_config (first_failed, [Finished, AwaitRegister, AwaitRegister])
             (7000, Settle 1 (Http NoResponse))
            = Some (st', [Finished, Finished, AwaitRegister]) \<and>
          reconnectAttempts st' = 2 \<and> timeouts st' = [3000, 4500]) \<and>
   (\<exists>st'. run example_config [(7000, Settle 1 (Http NoResponse)), (3000, Settle 2 (Http NoResponse))]
             (first_failed, [Finished, AwaitRegister, AwaitRegister])
            = Some (st', [Finished, Finished, Finished]) \<and>
          reconnectAttempts st' = 3)"
proof -
  let ?ts = "[Finished, AwaitRegister]"
  let ?ts3 = "[Finished, AwaitRegister, AwaitRegister]"
  have rf: "request_failed AwaitRegister NoResponse" by (simp add: request_failed_def)
  have tm: "timeouts first_failed = [3000]" by (simp add: first_failed_def loop_defs)
  note io = invocations_overlap [where cfg = example_config and st = first_failed]
  have a: "\<exists>t st'. step example_config (first_failed, ?ts) (1000, IntervalTick)
              = Some (st', ?ts @ [t]) \<and> t \<noteq> Finished"
    using io [of ?ts 1000] first_failed_fields by blast
  have b: "\<exists>t st'. step example_config (first_failed, ?ts) (2000, RetryTimer)
              = Some (st', ?ts @ [t]) \<and> t \<noteq> Finished"
    using io [of ?ts 2000] first_failed_fields by blast
  have h1: "alive first_failed \<and> 1 < length ?ts3 \<and> request_failed (?ts3 ! 1) NoResponse \<and>
    reconnectAttempts first_failed < MAX_RECONNECT_ATTEMPTS example_config"
    using first_failed_fields rf by (simp add: example_constants)
  from io [where ts = ?ts3 and i = 1 and r = NoResponse and dt = 7000,
      THEN conjunct2, THEN conjunct2, THEN conjunct1, rule_format, OF h1]
  obtain s where s: "step example_config (first_failed, ?ts3) (7000, Settle 1 (Http NoResponse))
      = Some (s, ?ts3[1 := Finished])"
    "reconnectAttempts s = reconnectAttempts first_failed + 1"
    "timeouts s = timeouts first_failed
       @ [RECONNECT_BASE_DELAY example_config * (1.5 powi reconnectAttempts first_failed)]"
    by blast
  have c: "\<exists>st'. step example_config (first_failed, ?ts3) (7000, Settle 1 (Http NoResponse))
            = Some (st', [Finished, Finished, AwaitRegister]) \<and>
          reconnectAttempts st' = 2 \<and> timeouts st' = [3000, 4500]"
    using s first_failed_fields(4) tm by (intro exI [of _ s]) (simp add: example_constants)
  have h2: "alive first_failed \<and> 1 < length ?ts3 \<and> 2 < length ?ts3 \<and> (1::nat) \<noteq> 2 \<and>
    request_failed (?ts3 ! 1) NoResponse \<and> request_failed (?ts3 ! 2) NoResponse \<and>
    reconnectAttempts first_failed + 1 < MAX_RECONNECT_ATTEMPTS example_config"
    using first_failed_fields rf by (simp add: example_constants)
  from io [where ts = ?ts3 and i = 1 and r = NoResponse and dt = 7000 and j = 2
        and r' = NoResponse and dt' = 3000,
      THEN conjunct2, THEN conjunct2, THEN conjunct2, THEN conjunct2, THEN conjunct2,
      rule_format, OF h2]
  obtain s' where s': "run example_config
        [(7000, Settle 1 (Http NoResponse)), (3000, Settle 2 (Http NoResponse))] (first_failed, ?ts3)
      = Some (s', ?ts3[1 := Finished, 2 := Finished])"
    "reconnectAttempts s' = reconnectAttempts first_failed + 2"
    by blast
  have d: "\<exists>st'. run example_config [(7000, Settle 1 (Http NoResponse)), (3000, Settle 2 (Http NoResponse))]
             (first_failed, ?ts3) = Some (st', [Finished, Finished, Finished]) \<and>
          reconnectAttempts st' = 3"
    using s' first_failed_fields(4) by (intro exI [of _ s']) simp
  from first_failed_fields rf a b c d show ?thesis by simp
qed

subsection \<open>A rejected report POST\<close>

lemma example_latency_test: "LATENCY_TEST example_config"
  by code_simp

lemma example_axios:
  "axios_result accepted = Some (Data True (Some ''42'') None)"
  "axios_result server_error = None" "axios_result NoResponse = None"
  by (simp_all add: accepted_def server_error_def validateStatus_def)

text \<open>
  Claim C8, as the code has it. When the report POST is rejected, the task sets
  \<^verbatim>\<open>isRegistered\<close> to false and calls \<^verbatim>\<open>scheduleReconnect\<close>: below the budget the counter
  rises by one and a retry is set after \<open>3000 * 1.5 ^ k\<close> ms, at the budget the process exits
  with status 1. The same holds for the whole cycle run on its own, and the cycle that runs next
  from that state starts with the registration POST and makes no other request if registration
  fails. Every call that starts while \<^verbatim>\<open>isRegistered\<close> is false starts with the registration
  POST, and a task whose registration fails returns without another request.
\<close>

theorem transmission_failure_deregisters:
  "(axios_result rp = None \<longrightarrow>
      resume cfg AwaitReport (Http rp) st =
        Some (Finished, scheduleReconnect cfg (st\<lparr>isRegistered := False\<rparr>)) \<and>
      (reconnectAttempts st < MAX_RECONNECT_ATTEMPTS cfg \<longrightarrow>
         scheduleReconnect cfg (st\<lparr>isRegistered := False\<rparr>) =
           st\<lparr>isRegistered := False, reconnectAttempts := reconnectAttempts st + 1,
              timeouts := timeouts st @ [RECONNECT_BASE_DELAY cfg * (1.5 powi reconnectAttempts st)]\<rparr>) \<and>
      (reconnectAttempts st \<ge> MAX_RECONNECT_ATTEMPTS cfg \<longrightarrow>
         scheduleReconnect cfg (st\<lparr>isRegistered := False\<rparr>) =
           st\<lparr>isRegistered := False, exit_code := Some 1\<rparr>)) \<and>
   ((isRegistered st \<or> fst (registerNode cfg (register_reply env) st)) \<and>
    fst (stats_reply env) \<noteq> None \<and> axios_result (fst (report_reply env)) = None \<longrightarrow>
      \<not> isRegistered (sendReport cfg env st) \<and>
      ((if isRegistered st then reconnectAttempts st else 0) < MAX_RECONNECT_ATTEMPTS cfg \<longrightarrow>
         reconnectAttempts (sendReport cfg env st) =
           (if isRegistered st then reconnectAttempts st else 0) + 1 \<and>
         timeouts (sendReport cfg env st) =
           timeouts st @ [RECONNECT_BASE_DELAY cfg *
                            (1.5 powi (if isRegistered st then reconnectAttempts st else 0))] \<and>
         exit_code (sendReport cfg env st) = exit_code st) \<and>
      ((if isRegistered st then reconnectAttempts st else 0) \<ge> MAX_RECONNECT_ATTEMPTS cfg \<longrightarrow>
         exit_code (sendReport cfg env st) = Some 1 \<and>
         timeouts (sendReport cfg env st) = timeouts st) \<and>
      (\<exists>rest. requests (sendReport cfg env' (sendReport cfg env st)) =
                 requests (sendReport cfg env st) @ register_request cfg st # rest \<and>
               (\<not> fst (registerNode cfg (register_reply env') (sendReport cfg env st))
                  \<longrightarrow> rest = []))) \<and>
   (\<not> isRegistered st \<longrightarrow>
      begin_cycle cfg st = (AwaitRegister, issue (register_request cfg st) st)) \<and>
   (\<not> fst (registerNode cfg (r, ms) st) \<longrightarrow>
      resume cfg AwaitRegister (Http r) st = Some (Finished, scheduleReconnect cfg st) \<and>
      requests (scheduleReconnect cfg st) = requests st)"
proof -
  have turn: "axios_result rp = None \<longrightarrow>
      resume cfg AwaitReport (Http rp) st =
        Some (Finished, scheduleReconnect cfg (st\<lparr>isRegistered := False\<rparr>)) \<and>
      (reconnectAttempts st < MAX_RECONNECT_ATTEMPTS cfg \<longrightarrow>
         scheduleReconnect cfg (st\<lparr>isRegistered := False\<rparr>) =
           st\<lparr>isRegistered := False, reconnectAttempts := reconnectAttempts st + 1,
              timeouts := timeouts st @ [RECONNECT_BASE_DELAY cfg * (1.5 powi reconnectAttempts st)]\<rparr>) \<and>
      (reconnectAttempts st \<ge> MAX_RECONNECT_ATTEMPTS cfg \<longrightarrow>
         scheduleReconnect cfg (st\<lparr>isRegistered := False\<rparr>) =
           st\<lparr>isRegistered := False, exit_code := Some 1\<rparr>)"
    by (simp add: scheduleReconnect_def Let_def)
  have cycle: "(isRegistered st \<or> fst (registerNode cfg (register_reply env) st)) \<and>
    fst (stats_reply env) \<noteq> None \<and> axios_result (fst (report_reply env)) = None \<longrightarrow>
      \<not> isRegistered (sendReport cfg env st) \<and>
      ((if isRegistered st then reconnectAttempts st else 0) < MAX_RECONNECT_ATTEMPTS cfg \<longrightarrow>
         reconnectAttempts (sendReport cfg env st) =
           (if isRegistered st then reconnectAttempts st else 0) + 1 \<and>
         timeouts (sendReport cfg env st) =
           timeouts st @ [RECONNECT_BASE_DELAY cfg *
                            (1.5 powi (if isRegistered st then reconnectAttempts st else 0))] \<and>
         exit_code (sendReport cfg env st) = exit_code st) \<and>
      ((if isRegistered st then reconnectAttempts st else 0) \<ge> MAX_RECONNECT_ATTEMPTS cfg \<longrightarrow>
         exit_code (sendReport cfg env st) = Some 1 \<and>
         timeouts (sendReport cfg env st) = timeouts st) \<and>
      (\<exists>rest. requests (sendReport cfg env' (sendReport cfg env st)) =
                 requests (sendReport cfg env st) @ register_request cfg st # rest \<and>
               (\<not> fst (registerNode cfg (register_reply env') (sendReport cfg env st))
                  \<longrightarrow> rest = []))"
  proof
    assume a: "(isRegistered st \<or> fst (registerNode cfg (register_reply env) st)) \<and>
      fst (stats_reply env) \<noteq> None \<and> axios_result (fst (report_reply env)) = None"
    let ?k = "if isRegistered st then reconnectAttempts st else 0"
    from a obtain m where m: "sendReport cfg env st = scheduleReconnect cfg (m\<lparr>isRegistered := False\<rparr>)"
      and k: "reconnectAttempts m = ?k" and t: "timeouts m = timeouts st"
      and x: "exit_code m = exit_code st"
      using sendReport_transmission_failed [of st cfg env] by blast
    have nr: "\<not> isRegistered (sendReport cfg env st)"
      by (simp add: m scheduleReconnect_frame)
    have below: "?k < MAX_RECONNECT_ATTEMPTS cfg \<longrightarrow>
         reconnectAttempts (sendReport cfg env st) = ?k + 1 \<and>
         timeouts (sendReport cfg env st) =
           timeouts st @ [RECONNECT_BASE_DELAY cfg * (1.5 powi ?k)] \<and>
         exit_code (sendReport cfg env st) = exit_code st"
      using k t x by (simp add: m scheduleReconnect_def Let_def)
    have budget: "?k \<ge> MAX_RECONNECT_ATTEMPTS cfg \<longrightarrow>
         exit_code (sendReport cfg env st) = Some 1 \<and>
         timeouts (sendReport cfg env st) = timeouts st"
      using k t x by (simp add: m scheduleReconnect_def Let_def)
    have rq: "register_request cfg (sendReport cfg env st) = register_request cfg st"
      by (rule register_request_cong) (rule sendReport_os_hostname)
    from sendReport_unregistered_requests [OF nr, of cfg env']
    have nxt: "\<exists>rest. requests (sendReport cfg env' (sendReport cfg env st)) =
                 requests (sendReport cfg env st) @ register_request cfg st # rest \<and>
               (\<not> fst (registerNode cfg (register_reply env') (sendReport cfg env st))
                  \<longrightarrow> rest = [])"
      by (simp only: rq)
    show "\<not> isRegistered (sendReport cfg env st) \<and>
      (?k < MAX_RECONNECT_ATTEMPTS cfg \<longrightarrow>
         reconnectAttempts (sendReport cfg env st) = ?k + 1 \<and>
         timeouts (sendReport cfg env st) =
           timeouts st @ [RECONNECT_BASE_DELAY cfg * (1.5 powi ?k)] \<and>
         exit_code (sendReport cfg env st) = exit_code st) \<and>
      (?k \<ge> MAX_RECONNECT_ATTEMPTS cfg \<longrightarrow>
         exit_code (sendReport cfg env st) = Some 1 \<and>
         timeouts (sendReport cfg env st) = timeouts st) \<and>
      (\<exists>rest. requests (sendReport cfg env' (sendReport cfg env st)) =
                 requests (sendReport cfg env st) @ register_request cfg st # rest \<and>
               (\<not> fst (registerNode cfg (register_reply env') (sendReport cfg env st))
                  \<longrightarrow> rest = []))"
      by (rule conjI [OF nr conjI [OF below conjI [OF budget nxt]]])
  qed
  have start: "\<not> isRegistered st \<longrightarrow>
      begin_cycle cfg st = (AwaitRegister, issue (register_request cfg st) st)"
    by (simp add: begin_cycle_def)
  have unreg: "\<not> fst (registerNode cfg (r, ms) st) \<longrightarrow>
      resume cfg AwaitRegister (Http r) st = Some (Finished, scheduleReconnect cfg st) \<and>
      requests (scheduleReconnect cfg st) = requests st"
    by (auto simp: registerNode_success scheduleReconnect_frame split: option.splits)
  show ?thesis by (rule conjI [OF turn conjI [OF cycle conjI [OF start unreg]]])
qed

text \<open>
  Claim C8 as stated fails where calls overlap: the third call has passed the test of
  \<^verbatim>\<open>isRegistered\<close> when the second call's report POST fails. After that failure the log
  holds five requests and the agent is unregistered; the third call then makes its latency GET
  and posts its report, with no registration in between and \<^verbatim>\<open>isRegistered\<close> still false.
\<close>

theorem report_after_failure_without_registration_counterexample:
  "map_option (isRegistered \<circ> fst)
     (run example_config in_flight_trace (boot example_config ''host-1'' 0)) = Some False \<and>
   map_option (length \<circ> requests \<circ> fst)
     (run example_config in_flight_trace (boot example_config ''host-1'' 0)) = Some 5 \<and>
   map_option (drop 5 \<circ> requests \<circ> fst)
     (run example_config
        (in_flight_trace @ [(150, Settle 2 (Stats (Some example_stats))),
                            (37, Settle 2 (Http accepted))])
        (boot example_config ''host-1'' 0))
     = Some [ping_request example_config, report_request example_config 37 example_stats] \<and>
   map_option (isRegistered \<circ> fst)
     (run example_config
        (in_flight_trace @ [(150, Settle 2 (Stats (Some example_stats))),
                            (37, Settle 2 (Http accepted))])
        (boot example_config ''host-1'' 0)) = Some False"
  by (simp add: in_flight_trace_def loop_defs example_latency_test example_axios)

theorem transmission_failure_deregisters_witness:
  "axios_result NoResponse = None \<and>
   reconnectAttempts ((initial ''host-1'' 0)\<lparr>isRegistered := True\<rparr>)
     < MAX_RECONNECT_ATTEMPTS example_config \<and>
   resume example_config AwaitReport (Http NoResponse) ((initial ''host-1'' 0)\<lparr>isRegistered := True\<rparr>)
     = Some (Finished, (initial ''host-1'' 0)\<lparr>isRegistered := False, reconnectAttempts := 1,
                                                timeouts := [3000]\<rparr>) \<and>
   fst (registerNode example_config (register_reply report_lost) (initial ''host-1'' 0)) \<and>
   fst (stats_reply report_lost) \<noteq> None \<and>
   axios_result (fst (report_reply report_lost)) = None \<and>
   \<not> isRegistered (sendReport example_config report_lost (initial ''host-1'' 0)) \<and>
   reconnectAttempts (sendReport example_config report_lost (initial ''host-1'' 0)) = 1 \<and>
   timeouts (sendReport example_config report_lost (initial ''host-1'' 0)) = [3000] \<and>
   hd (drop (length (requests (sendReport example_config report_lost (initial ''host-1'' 0))))
        (requests (sendReport example_config all_well
                    (sendReport example_config report_lost (initial ''host-1'' 0)))))
     = register_request example_config (initial ''host-1'' 0) \<and>
   begin_cycle example_config (initial ''host-1'' 0)
     = (AwaitRegister, issue (register_request example_config (initial ''host-1'' 0))
                         (initial ''host-1'' 0)) \<and>
   \<not> fst (registerNode example_config (NoResponse, 10000) (initial ''host-1'' 0)) \<and>
   resume example_config AwaitRegister (Http NoResponse) (initial ''host-1'' 0)
     = Some (Finished, scheduleReconnect example_config (initial ''host-1'' 0))"
proof -
  let ?i = "initial ''host-1'' 0"
  let ?r = "?i\<lparr>isRegistered := True\<rparr>"
  note t = transmission_failure_deregisters [where cfg = example_config]
  have lt: "reconnectAttempts ?r < MAX_RECONNECT_ATTEMPTS example_config"
    by (simp add: initial_fields example_constants)
  note turn = t [where rp = NoResponse and st = ?r, THEN conjunct1, rule_format, OF example_axios(3)]
  from turn [THEN conjunct1] turn [THEN conjunct2, THEN conjunct1, rule_format, OF lt]
  have a: "resume example_config AwaitReport (Http NoResponse) ?r
     = Some (Finished, ?i\<lparr>isRegistered := False, reconnectAttempts := 1, timeouts := [3000]\<rparr>)"
    by (simp add: initial_def example_constants)
  have h: "(isRegistered ?i \<or> fst (registerNode example_config (register_reply report_lost) ?i)) \<and>
    fst (stats_reply report_lost) \<noteq> None \<and> axios_result (fst (report_reply report_lost)) = None"
    by (simp add: example_replies)
  note cyc = t [where st = ?i and env = report_lost and env' = all_well,
      THEN conjunct2, THEN conjunct1, rule_format, OF h]
  have k: "(if isRegistered ?i then reconnectAttempts ?i else 0) < MAX_RECONNECT_ATTEMPTS example_config"
    by (simp add: initial_fields example_constants)
  from cyc [THEN conjunct1] have b: "\<not> isRegistered (sendReport example_config report_lost ?i)" .
  from cyc [THEN conjunct2, THEN conjunct1, rule_format, OF k]
  have c: "reconnectAttempts (sendReport example_config report_lost ?i) = 1"
    "timeouts (sendReport example_config report_lost ?i) = [3000]"
    by (simp_all add: initial_fields example_constants)
  from cyc [THEN conjunct2, THEN conjunct2, THEN conjunct2] obtain rest where
    "requests (sendReport example_config all_well (sendReport example_config report_lost ?i)) =
       requests (sendReport example_config report_lost ?i) @ register_request example_config ?i # rest"
    by blast
  then have d: "hd (drop (length (requests (sendReport example_config report_lost ?i)))
        (requests (sendReport example_config all_well (sendReport example_config report_lost ?i))))
     = register_request example_config ?i" by simp
  from t [where st = ?i, THEN conjunct2, THEN conjunct2, THEN conjunct1, rule_format]
  have e: "begin_cycle example_config ?i
     = (AwaitRegister, issue (register_request example_config ?i) ?i)"
    by (simp add: initial_fields)
  have nf: "\<not> fst (registerNode example_config (NoResponse, 10000) ?i)"
    by (simp add: registerNode_success)
  from t [where st = ?i and r = NoResponse and ms = 10000,
      THEN conjunct2, THEN conjunct2, THEN conjunct2, rule_format, OF nf]
  have f: "resume example_config AwaitRegister (Http NoResponse) ?i
     = Some (Finished, scheduleReconnect example_config ?i)"
    by simp
  from lt a h b c d e nf f show ?thesis by (simp add: example_axios example_replies)
qed

subsection \<open>A null snapshot\<close>

text \<open>
  Claim C7. In a cycle whose snapshot is \<^verbatim>\<open>null\<close> no report is posted: the only request is
  the registration POST of an agent that was not registered. The counter is not raised and
  \<^verbatim>\<open>isRegistered\<close> is not set to false: the cycle ends registered, with the state that it had
  when collection began (the state at the start if the agent was registered, the state that
  registration left otherwise), up to the clock. No retry timer is set and the process does not
  exit. In the event loop the turn in which a task gets the \<^verbatim>\<open>null\<close> snapshot ends the task and
  changes neither variable, the request log nor the timers.
\<close>

theorem null_snapshot_cycle:
  "(fst (stats_reply env) = None \<longrightarrow>
     (isRegistered st \<longrightarrow> sendReport cfg env st = elapse (snd (stats_reply env)) st) \<and>
     (\<not> isRegistered st \<and> fst (registerNode cfg (register_reply env) st) \<longrightarrow>
        sendReport cfg env st =
          elapse (snd (stats_reply env)) (snd (registerNode cfg (register_reply env) st)) \<and>
        reconnectAttempts (sendReport cfg env st) = 0) \<and>
     (isRegistered st \<or> fst (registerNode cfg (register_reply env) st) \<longrightarrow>
        isRegistered (sendReport cfg env st) \<and>
        (0 \<le> reconnectAttempts st \<longrightarrow> reconnectAttempts (sendReport cfg env st) \<le> reconnectAttempts st) \<and>
        timeouts (sendReport cfg env st) = timeouts st \<and>
        exit_code (sendReport cfg env st) = exit_code st \<and>
        requests (sendReport cfg env st) =
          requests st @ (if isRegistered st then [] else [register_request cfg st])) \<and>
     resume cfg AwaitStats (Stats (fst (stats_reply env))) st = Some (Finished, st)) \<and>
   (step cfg (st, ts) (dt, Settle i (Stats None)) = Some (st', ts') \<longrightarrow>
      ts ! i = AwaitStats \<and> ts' = ts[i := Finished] \<and>
      isRegistered st' = isRegistered st \<and> reconnectAttempts st' = reconnectAttempts st \<and>
      requests st' = requests st \<and> timeouts st' = timeouts st \<and> exit_code st' = exit_code st)"
proof -
  have turn: "step cfg (st, ts) (dt, Settle i (Stats None)) = Some (st', ts') \<longrightarrow>
      ts ! i = AwaitStats \<and> ts' = ts[i := Finished] \<and>
      isRegistered st' = isRegistered st \<and> reconnectAttempts st' = reconnectAttempts st \<and>
      requests st' = requests st \<and> timeouts st' = timeouts st \<and> exit_code st' = exit_code st"
  proof
    assume a: "step cfg (st, ts) (dt, Settle i (Stats None)) = Some (st', ts')"
    then obtain t st1 where r: "resume cfg (ts ! i) (Stats None) (elapse dt st) = Some (t, st1)"
      and s: "st' = after_first cfg i t st1" "ts' = ts[i := t]"
      by (auto simp: step_def Let_def split: if_splits option.splits)
    from r have "ts ! i = AwaitStats \<and> t = Finished \<and> st1 = elapse dt st"
      by (cases "(cfg, ts ! i, Stats None :: reply, elapse dt st)" rule: resume.cases) auto
    with s show "ts ! i = AwaitStats \<and> ts' = ts[i := Finished] \<and>
      isRegistered st' = isRegistered st \<and> reconnectAttempts st' = reconnectAttempts st \<and>
      requests st' = requests st \<and> timeouts st' = timeouts st \<and> exit_code st' = exit_code st"
      by (simp add: after_first_frame elapse_def)
  qed
  from null_snapshot_branches [of env st cfg] turn show ?thesis by (rule conjI)
qed

theorem null_snapshot_cycle_witness:
  "fst (stats_reply no_snapshot) = None \<and>
   isRegistered (sendReport example_config all_well (initial ''host-1'' 0)) \<and>
   sendReport example_config no_snapshot (sendReport example_config all_well (initial ''host-1'' 0))
     = elapse 250 (sendReport example_config all_well (initial ''host-1'' 0)) \<and>
   \<not> isRegistered (initial ''host-1'' 0) \<and>
   fst (registerNode example_config (register_reply no_snapshot) (initial ''host-1'' 0)) \<and>
   isRegistered (sendReport example_config no_snapshot (initial ''host-1'' 0)) \<and>
   reconnectAttempts (sendReport example_config no_snapshot (initial ''host-1'' 0)) = 0 \<and>
   timeouts (sendReport example_config no_snapshot (initial ''host-1'' 0)) = [] \<and>
   requests (sendReport example_config no_snapshot (initial ''host-1'' 0))
     = [register_request example_config (initial ''host-1'' 0)] \<and>
   step example_config (sendReport example_config all_well (initial ''host-1'' 0), [Finished, AwaitStats])
       (250, Settle 1 (Stats None))
     = Some (elapse 250 (sendReport example_config all_well (initial ''host-1'' 0)),
             [Finished, Finished]) \<and>
   isRegistered (elapse 250 (sendReport example_config all_well (initial ''host-1'' 0))) \<and>
   reconnectAttempts (elapse 250 (sendReport example_config all_well (initial ''host-1'' 0))) = 0"
proof -
  let ?i = "initial ''host-1'' 0"
  let ?r = "sendReport example_config all_well ?i"
  note ns = null_snapshot_cycle [where cfg = example_config]
  have reg: "isRegistered ?r" and ra: "reconnectAttempts ?r = 0" and al: "alive ?r"
    using sendReport_sent [of ?i example_config all_well]
    by (simp_all add: example_replies initial_fields alive_def) (simp add: initial_def)
  from ns [where env = no_snapshot and st = ?r, THEN conjunct1, rule_format, OF example_replies(4)]
  have a: "sendReport example_config no_snapshot ?r = elapse 250 ?r"
    using reg by (simp add: example_replies)
  have b: "isRegistered (sendReport example_config no_snapshot ?i) \<and>
     reconnectAttempts (sendReport example_config no_snapshot ?i) = 0 \<and>
     timeouts (sendReport example_config no_snapshot ?i) = [] \<and>
     requests (sendReport example_config no_snapshot ?i) = [register_request example_config ?i]"
  proof -
    from ns [where env = no_snapshot and st = ?i, THEN conjunct1, rule_format, OF example_replies(4)]
    have "isRegistered ?i \<or> fst (registerNode example_config (register_reply no_snapshot) ?i) \<longrightarrow>
        isRegistered (sendReport example_config no_snapshot ?i) \<and>
        (0 \<le> reconnectAttempts ?i \<longrightarrow>
           reconnectAttempts (sendReport example_config no_snapshot ?i) \<le> reconnectAttempts ?i) \<and>
        timeouts (sendReport example_config no_snapshot ?i) = timeouts ?i \<and>
        exit_code (sendReport example_config no_snapshot ?i) = exit_code ?i \<and>
        requests (sendReport example_config no_snapshot ?i) =
          requests ?i @ (if isRegistered ?i then [] else [register_request example_config ?i])"
      and "\<not> isRegistered ?i \<and> fst (registerNode example_config (register_reply no_snapshot) ?i) \<longrightarrow>
        reconnectAttempts (sendReport example_config no_snapshot ?i) = 0"
      by blast+
    then show ?thesis by (simp add: example_replies initial_fields)
  qed
  have c: "step example_config (?r, [Finished, AwaitStats]) (250, Settle 1 (Stats None))
     = Some (elapse 250 ?r, [Finished, Finished])"
    using al by (simp add: step_def Let_def alive_def elapse_def after_first_def)
  from ns [where st = ?r and ts = "[Finished, AwaitStats]" and dt = 250 and i = 1,
      THEN conjunct2, rule_format, OF c] reg ra
  have d: "isRegistered (elapse 250 ?r) \<and> reconnectAttempts (elapse 250 ?r) = 0"
    by simp
  from reg a b c d show ?thesis by (simp add: example_replies initial_fields)
qed

end
